theory Spec2Isabelle
  imports Complex_Main
begin

section \<open>Data model\<close>

text \<open>
  The script \<^verbatim>\<open>generate_charts.py\<close> is a straight-line pandas program. A data frame
  is modelled row-major: the list of column labels and the list of rows, every row holding
  one cell per label. A cell is a missing value (NaN, None, NA), a Python string, a number
  held in a numpy numeric column, or an integer of a nullable \<^verbatim>\<open>Int64\<close> column. The type
  \<open>'n\<close> of plain numbers is left open: the script never computes with them. Strings are
  strings over the code points 0 to 255 (the type \<^typ>\<open>char\<close>).
\<close>

datatype error = KeyError "string list" | TypeError | AttributeError | IndexError

datatype 'n cell = Null | Text string | Num 'n | Int64 int

record 'n table =
  columns :: "string list"
  rows :: "'n cell list list"

definition well_formed :: "'n table \<Rightarrow> bool" where
  "well_formed df = list_all (\<lambda>r. length r = length (columns df)) (rows df)"

text \<open>
  What the script takes from pandas' numeric parser: the outcome of parsing one string
  in \<^verbatim>\<open>pd.to_numeric\<close>, which depends on the mode (the flag \<^verbatim>\<open>coerce_numeric\<close> of the
  parser: true for \<^verbatim>\<open>errors='coerce'\<close>, false for \<^verbatim>\<open>errors='ignore'\<close>), and the integer
  a number is safely cast to, if any (\<^verbatim>\<open>astype('Int64')\<close>). Both are parameters of the
  model.
\<close>

datatype 'n parsed = Fail | NaN | Val 'n

record 'n pd =
  str_to_number :: "bool \<Rightarrow> string \<Rightarrow> 'n parsed"
  number_to_int :: "'n \<Rightarrow> int option"

text \<open>
  The three lookups of \<^verbatim>\<open>pycountry_convert\<close> used by \<^verbatim>\<open>country_to_continent\<close>; each
  may raise.
\<close>

record pc =
  country_name_to_country_alpha2 :: "string \<Rightarrow> error + string"
  country_alpha2_to_continent_code :: "string \<Rightarrow> error + string"
  convert_continent_code_to_continent_name :: "string \<Rightarrow> error + string"

section \<open>Helpers of the script (lines 10-24)\<close>

text \<open>
  \<^verbatim>\<open>str.lower\<close> on one character. Among the code points 0 to 255 the cased capital
  letters are A to Z (65 to 90) and U+00C0 to U+00DE without the multiplication sign
  U+00D7 (192 to 222 without 215); the small letter of each is 32 further, which is the
  same character with bit 5 set.
\<close>

fun lower_char :: "char \<Rightarrow> char" where
  "lower_char (Char b0 b1 b2 b3 b4 b5 b6 b7) =
     (let n = of_char (Char b0 b1 b2 b3 b4 b5 b6 b7) :: nat
      in if (65 \<le> n \<and> n \<le> 90) \<or> (192 \<le> n \<and> n \<le> 222 \<and> n \<noteq> 215)
         then Char b0 b1 b2 b3 b4 True b6 b7
         else Char b0 b1 b2 b3 b4 b5 b6 b7)"

definition clean_col :: "string \<Rightarrow> string" where
  "clean_col name = map lower_char name"

text \<open>
  \<^verbatim>\<open>country_to_continent\<close>: the bare \<^verbatim>\<open>except\<close> turns an exception of any of the three
  lookups into \<^verbatim>\<open>None\<close>.
\<close>

definition country_to_continent :: "pc \<Rightarrow> string \<Rightarrow> string option" where
  "country_to_continent lib country_name =
     (case country_name_to_country_alpha2 lib country_name of
        Inl _ \<Rightarrow> None
      | Inr country_code \<Rightarrow>
          (case country_alpha2_to_continent_code lib country_code of
             Inl _ \<Rightarrow> None
           | Inr continent_code \<Rightarrow>
               (case convert_continent_code_to_continent_name lib continent_code of
                  Inl _ \<Rightarrow> None
                | Inr continent_name \<Rightarrow> Some continent_name)))"

section \<open>The pandas operations the script calls\<close>

text \<open>Position of a label among the columns (first match).\<close>

fun get_loc :: "string \<Rightarrow> string list \<Rightarrow> nat option" where
  "get_loc k [] = None"
| "get_loc k (c # cs) = (if c = k then Some 0 else map_option Suc (get_loc k cs))"

definition map_column :: "nat \<Rightarrow> ('a \<Rightarrow> 'a) \<Rightarrow> 'a list list \<Rightarrow> 'a list list" where
  "map_column j f rs = map (\<lambda>r. r[j := f (r ! j)]) rs"

text \<open>
  \<^verbatim>\<open>DataFrame.drop_duplicates()\<close> with its defaults: all columns compared, the first of
  equal rows kept, missing values equal to each other.
\<close>

fun drop_duplicates :: "'a list \<Rightarrow> 'a list" where
  "drop_duplicates [] = []"
| "drop_duplicates (x # xs) = x # drop_duplicates (filter (\<lambda>y. y \<noteq> x) xs)"

text \<open>
  \<^verbatim>\<open>pd.to_numeric\<close> on one cell, in the mode \<open>coerce\<close>; \<open>None\<close> is a string that does
  not parse. With \<^verbatim>\<open>errors='coerce'\<close> such a cell becomes NaN; with \<^verbatim>\<open>errors='ignore'\<close>
  one such cell makes the call return its whole argument unchanged.
\<close>

fun to_numeric_cell :: "'n pd \<Rightarrow> bool \<Rightarrow> 'n cell \<Rightarrow> 'n cell option" where
  "to_numeric_cell p coerce Null = Some Null"
| "to_numeric_cell p coerce (Num n) = Some (Num n)"
| "to_numeric_cell p coerce (Int64 i) = Some (Int64 i)"
| "to_numeric_cell p coerce (Text s) =
     (case str_to_number p coerce s of Fail \<Rightarrow> None | NaN \<Rightarrow> Some Null | Val n \<Rightarrow> Some (Num n))"

definition to_numeric_coerce :: "'n pd \<Rightarrow> 'n cell \<Rightarrow> 'n cell" where
  "to_numeric_coerce p c = (case to_numeric_cell p True c of None \<Rightarrow> Null | Some v \<Rightarrow> v)"

text \<open>
  For stating what these calls do to a column: its values from the first row to the last,
  whether every one of them parses with \<^verbatim>\<open>errors='ignore'\<close>, and the value a cell has
  once its column is converted.
\<close>

definition column_values :: "nat \<Rightarrow> 'a list list \<Rightarrow> 'a list" where
  "column_values j rs = map (\<lambda>r. r ! j) rs"

definition parses :: "'n pd \<Rightarrow> 'n cell list \<Rightarrow> bool" where
  "parses p cs = list_all (\<lambda>c. to_numeric_cell p False c \<noteq> None) cs"

definition numeric_cell :: "'n pd \<Rightarrow> 'n cell \<Rightarrow> 'n cell" where
  "numeric_cell p c = (case to_numeric_cell p False c of Some v \<Rightarrow> v | None \<Rightarrow> c)"

definition to_numeric_ignore :: "'n pd \<Rightarrow> nat \<Rightarrow> 'n cell list list \<Rightarrow> 'n cell list list" where
  "to_numeric_ignore p j rs =
     (if list_all (\<lambda>r. to_numeric_cell p False (r ! j) \<noteq> None) rs
      then map_column j (numeric_cell p) rs
      else rs)"

text \<open>
  \<^verbatim>\<open>astype('Int64')\<close> on one cell of a numeric column; \<open>None\<close> is pandas' TypeError
  for a number that is not equal to an integer of 64 bits (the cast is refused for the
  whole column).
  A string cannot reach the cast: \<^verbatim>\<open>to_numeric(errors='coerce')\<close> leaves none.
\<close>

fun astype_Int64 :: "'n pd \<Rightarrow> 'n cell \<Rightarrow> 'n cell option" where
  "astype_Int64 p Null = Some Null"
| "astype_Int64 p (Int64 i) = Some (Int64 i)"
| "astype_Int64 p (Num n) = map_option Int64 (number_to_int p n)"
| "astype_Int64 p (Text s) = None"

text \<open>
  A column read from a CSV file has dtype \<^verbatim>\<open>object\<close> exactly when it holds a string.
\<close>

definition is_Text :: "'n cell \<Rightarrow> bool" where
  "is_Text c = (case c of Text _ \<Rightarrow> True | _ \<Rightarrow> False)"

definition dtype_is_object :: "nat \<Rightarrow> 'n cell list list \<Rightarrow> bool" where
  "dtype_is_object j rs = list_ex (\<lambda>r. is_Text (r ! j)) rs"

text \<open>
  \<^verbatim>\<open>DataFrame.dropna(subset=...)\<close>: KeyError with the labels that are not columns,
  otherwise the rows with no missing value in the columns of the subset.
\<close>

definition notna_at :: "string list \<Rightarrow> 'n cell list \<Rightarrow> string \<Rightarrow> bool" where
  "notna_at cols r c = (case get_loc c cols of Some j \<Rightarrow> r ! j \<noteq> Null | None \<Rightarrow> True)"

definition dropna :: "string list \<Rightarrow> 'n table \<Rightarrow> error + 'n table" where
  "dropna labels df =
     (let missing = filter (\<lambda>c. c \<notin> set (columns df)) labels
      in if missing \<noteq> [] then Inl (KeyError missing)
         else Inr (df\<lparr>rows := filter (\<lambda>r. list_all (notna_at (columns df) r) labels) (rows df)\<rparr>))"

text \<open>
  \<^verbatim>\<open>df[label] = values\<close>: an existing column is overwritten in place, a new one is
  appended as the last column.
\<close>

definition setitem :: "string \<Rightarrow> ('n cell list \<Rightarrow> 'n cell) \<Rightarrow> 'n table \<Rightarrow> 'n table" where
  "setitem label f df =
     (case get_loc label (columns df) of
        Some k \<Rightarrow> df\<lparr>rows := map (\<lambda>r. r[k := f r]) (rows df)\<rparr>
      | None \<Rightarrow> df\<lparr>columns := columns df @ [label], rows := map (\<lambda>r. r @ [f r]) (rows df)\<rparr>)"

section \<open>Load and clean the data (lines 26-44)\<close>

text \<open>
  Lines 38-39. With two columns labelled \<^verbatim>\<open>year\<close>, \<^verbatim>\<open>df['year']\<close> is a frame and
  \<^verbatim>\<open>pd.to_numeric\<close> raises TypeError.
\<close>

definition year_cell :: "'n pd \<Rightarrow> 'n cell \<Rightarrow> 'n cell option" where
  "year_cell p c = astype_Int64 p (to_numeric_coerce p c)"

definition year_value :: "'n pd \<Rightarrow> 'n cell \<Rightarrow> 'n cell" where
  "year_value p c = (case year_cell p c of Some v \<Rightarrow> v | None \<Rightarrow> c)"

definition coerce_year :: "'n pd \<Rightarrow> 'n table \<Rightarrow> error + 'n table" where
  "coerce_year p df =
     (case get_loc ''year'' (columns df) of
        None \<Rightarrow> Inr df
      | Some j \<Rightarrow>
          if 1 < count_list (columns df) ''year'' then Inl TypeError
          else if list_all (\<lambda>r. year_cell p (r ! j) \<noteq> None) (rows df)
          then Inr (df\<lparr>rows := map_column j (year_value p) (rows df)\<rparr>)
          else Inl TypeError)"

text \<open>
  Lines 42-44, the loop over the labels. With a repeated label \<^verbatim>\<open>df[col]\<close> is a frame,
  which has no \<^verbatim>\<open>dtype\<close>: AttributeError.
\<close>

fun numeric_loop :: "'n pd \<Rightarrow> string list \<Rightarrow> 'n table \<Rightarrow> error + 'n table" where
  "numeric_loop p [] df = Inr df"
| "numeric_loop p (col # cols) df =
     (if 1 < count_list (columns df) col then Inl AttributeError
      else case get_loc col (columns df) of
        None \<Rightarrow> numeric_loop p cols df
      | Some j \<Rightarrow>
          numeric_loop p cols
            (if dtype_is_object j (rows df) \<and> col \<notin> set [''country'', ''gender'']
             then df\<lparr>rows := to_numeric_ignore p j (rows df)\<rparr>
             else df))"

text \<open>
  Lines 26-44. The casts to \<^verbatim>\<open>category\<close> of lines 32-35 change no cell value.
\<close>

definition normalizer :: "'n pd \<Rightarrow> 'n table \<Rightarrow> error + 'n table" where
  "normalizer p df0 =
     (let df1 = df0\<lparr>columns := map clean_col (columns df0)\<rparr>;
          df2 = df1\<lparr>rows := drop_duplicates (rows df1)\<rparr>
      in case coerce_year p df2 of
           Inl e \<Rightarrow> Inl e
         | Inr df3 \<Rightarrow> numeric_loop p (columns df3) df3)"

section \<open>Filter and continent (lines 46-47)\<close>

text \<open>Line 46: \<^verbatim>\<open>df[df["gender"] == "Both sexes"]\<close>.\<close>

definition gender_filter :: "'n table \<Rightarrow> error + 'n table" where
  "gender_filter df =
     (case get_loc ''gender'' (columns df) of
        None \<Rightarrow> Inl (KeyError [''gender''])
      | Some g \<Rightarrow> Inr (df\<lparr>rows := filter (\<lambda>r. r ! g = Text ''Both sexes'') (rows df)\<rparr>))"

text \<open>
  Line 47. \<^verbatim>\<open>Series.apply\<close> on the categorical column calls the function on the
  categories and leaves a missing country missing. A category that is not a string is no
  key of the library's table of names: the lookup raises and the function returns None.
\<close>

fun continent_cell :: "pc \<Rightarrow> 'n cell \<Rightarrow> 'n cell" where
  "continent_cell lib (Text s) =
     (case country_to_continent lib s of None \<Rightarrow> Null | Some n \<Rightarrow> Text n)"
| "continent_cell lib c = Null"

definition geo_enricher :: "pc \<Rightarrow> 'n table \<Rightarrow> error + 'n table" where
  "geo_enricher lib df =
     (case get_loc ''country'' (columns df) of
        None \<Rightarrow> Inl (KeyError [''country''])
      | Some k \<Rightarrow> Inr (setitem ''continent'' (\<lambda>r. continent_cell lib (r ! k)) df))"

definition df_both :: "'n pd \<Rightarrow> pc \<Rightarrow> 'n table \<Rightarrow> error + 'n table" where
  "df_both p lib df0 =
     (case normalizer p df0 of
        Inl e \<Rightarrow> Inl e
      | Inr df \<Rightarrow>
          (case gender_filter df of
             Inl e \<Rightarrow> Inl e
           | Inr fb \<Rightarrow> geo_enricher lib fb))"

text \<open>
  The order of section 2 of the specification, for comparison: the continent is added to
  the normalized table and the gender filter is applied to the result.
\<close>

definition spec_order_df_both :: "'n pd \<Rightarrow> pc \<Rightarrow> 'n table \<Rightarrow> error + 'n table" where
  "spec_order_df_both p lib df0 =
     (case normalizer p df0 of
        Inl e \<Rightarrow> Inl e
      | Inr df \<Rightarrow>
          (case geo_enricher lib df of
             Inl e \<Rightarrow> Inl e
           | Inr en \<Rightarrow> gender_filter en))"

section \<open>The two charts (lines 54, 94, 100-167)\<close>

definition df_scatter :: "'n table \<Rightarrow> error + 'n table" where
  "df_scatter both = dropna [''diet composition fruit and vegetables'', ''life expectancy''] both"

definition df_gapminder :: "'n table \<Rightarrow> error + 'n table" where
  "df_gapminder both =
     dropna [''gdp per capita'', ''life expectancy'', ''total population'', ''continent'', ''year''] both"

text \<open>Line 103: the distinct years of the bubble chart's data, ascending.\<close>

definition year_values :: "'n table \<Rightarrow> int list" where
  "year_values df =
     (case get_loc ''year'' (columns df) of
        None \<Rightarrow> []
      | Some j \<Rightarrow> concat (map (\<lambda>r. case r ! j of Int64 i \<Rightarrow> [i] | _ \<Rightarrow> []) (rows df)))"

definition years :: "'n table \<Rightarrow> int list" where
  "years gap = sort (drop_duplicates (year_values gap))"

record binding_range =
  range_min :: int
  range_max :: int
  range_step :: int
  range_name :: string

record selection_point =
  sel_fields :: "string list"
  sel_bind :: binding_range
  sel_value :: int

text \<open>Lines 146-157; \<^verbatim>\<open>years[0]\<close> and \<^verbatim>\<open>years[-1]\<close> raise IndexError on the empty list.\<close>

definition year_slider :: "int list \<Rightarrow> error + binding_range" where
  "year_slider ys =
     (if ys = [] then Inl IndexError
      else Inr \<lparr>range_min = hd ys, range_max = last ys, range_step = 1, range_name = ''Year: ''\<rparr>)"

definition year_selection :: "int list \<Rightarrow> error + selection_point" where
  "year_selection ys =
     (case year_slider ys of
        Inl e \<Rightarrow> Inl e
      | Inr slider \<Rightarrow> Inr \<lparr>sel_fields = [''year''], sel_bind = slider, sel_value = hd ys\<rparr>)"



text \<open>Line 104 prints \<^verbatim>\<open>years[0]\<close> and \<^verbatim>\<open>years[-1]\<close>; it is the first line to read them.\<close>

definition year_range :: "int list \<Rightarrow> error + int \<times> int" where
  "year_range ys = (if ys = [] then Inl IndexError else Inr (hd ys, last ys))"

text \<open>
  The two chart builders and the whole script after loading: the documents written, in
  order, and the exception that ended the run, if any. Building and saving a chart is the
  rendering library's work and is taken to succeed.
\<close>

definition scatter_path :: string where
  "scatter_path = ''../charts/fruit_vegetable_life_expectancy.html''"

definition bubble_path :: string where
  "bubble_path = ''../charts/gdp_life_expectancy_bubble_chart.html''"

definition scatter_chart_builder :: "'n table \<Rightarrow> string list \<times> error option" where
  "scatter_chart_builder both =
     (case df_scatter both of
        Inl e \<Rightarrow> ([], Some e)
      | Inr sc \<Rightarrow> ([scatter_path], None))"

definition bubble_chart_builder :: "'n table \<Rightarrow> string list \<times> error option" where
  "bubble_chart_builder both =
     (case df_gapminder both of
        Inl e \<Rightarrow> ([], Some e)
      | Inr gap \<Rightarrow>
          (case year_range (years gap) of
             Inl e \<Rightarrow> ([], Some e)
           | Inr _ \<Rightarrow>
               (case year_selection (years gap) of
                  Inl e \<Rightarrow> ([], Some e)
                | Inr sel \<Rightarrow> ([bubble_path], None))))"

definition script :: "'n pd \<Rightarrow> pc \<Rightarrow> 'n table \<Rightarrow> string list \<times> error option" where
  "script p lib df0 =
     (case df_both p lib df0 of
        Inl e \<Rightarrow> ([], Some e)
      | Inr both \<Rightarrow>
          (case scatter_chart_builder both of
             (written, Some e) \<Rightarrow> (written, Some e)
           | (written, None) \<Rightarrow>
               (case bubble_chart_builder both of
                  (written2, result) \<Rightarrow> (written @ written2, result))))"


section \<open>A concrete parser and a concrete lookup, for the examples\<close>

text \<open>
  A parser for the strings of the examples, with real numbers as values, and a lookup that
  knows France only. The parser reads a string of decimal digits as pandas does: a whole
  number up to \<^verbatim>\<open>2**64 - 1\<close>, the greatest \<^verbatim>\<open>uint64\<close>, is that number; a greater one
  is read as a float with \<^verbatim>\<open>errors='coerce'\<close> and is refused (\<^verbatim>\<open>Integer out of range\<close>)
  with \<^verbatim>\<open>errors='ignore'\<close>. The empty string is NaN. A string with any other character is
  taken not to parse: so it is in pandas for the words of the examples; the signs, decimal
  points, exponents, blanks and names of NaN and infinity that pandas also reads are not
  covered. The cast to \<^verbatim>\<open>Int64\<close> accepts the whole numbers from \<^verbatim>\<open>-2**63\<close> to
  \<^verbatim>\<open>2**63 - 1\<close>.
\<close>

definition digit_value :: "char \<Rightarrow> nat option" where
  "digit_value c = map_of (zip ''0123456789'' [0, 1, 2, 3, 4, 5, 6, 7, 8, 9]) c"

fun parse_digits :: "nat \<Rightarrow> string \<Rightarrow> nat option" where
  "parse_digits acc [] = Some acc"
| "parse_digits acc (c # cs) =
     (case digit_value c of None \<Rightarrow> None | Some d \<Rightarrow> parse_digits (10 * acc + d) cs)"

definition digits_pd :: "real pd" where
  "digits_pd =
     \<lparr>str_to_number =
        (\<lambda>coerce s. if s = [] then NaN
                     else case parse_digits 0 s of
                            None \<Rightarrow> Fail
                          | Some n \<Rightarrow> if n < 2 ^ 64 \<or> coerce then Val (of_nat n) else Fail),
      number_to_int =
        (\<lambda>q. if q = of_int \<lfloor>q\<rfloor> \<and> - (2 ^ 63) \<le> q \<and> q < 2 ^ 63 then Some \<lfloor>q\<rfloor> else None)\<rparr>"

definition france_pc :: pc where
  "france_pc =
     \<lparr>country_name_to_country_alpha2 = (\<lambda>s. if s = ''France'' then Inr ''FR'' else Inl (KeyError [s])),
      country_alpha2_to_continent_code = (\<lambda>s. if s = ''FR'' then Inr ''EU'' else Inl (KeyError [s])),
      convert_continent_code_to_continent_name = (\<lambda>s. if s = ''EU'' then Inr ''Europe'' else Inl (KeyError [s]))\<rparr>"

section \<open>Column lookup\<close>

lemma get_loc_Some: "get_loc k cs = Some j \<Longrightarrow> j < length cs \<and> cs ! j = k"
  by (induction cs arbitrary: j) (auto split: if_splits)

lemma get_loc_None: "get_loc k cs = None \<longleftrightarrow> k \<notin> set cs"
  by (induction cs) auto

lemma get_loc_append: "k \<in> set cs \<Longrightarrow> get_loc k (cs @ ds) = get_loc k cs"
  by (induction cs) auto

lemma get_loc_snoc_new: "k \<notin> set cs \<Longrightarrow> get_loc k (cs @ [k]) = Some (length cs)"
  by (induction cs) auto

section \<open>The gender filter\<close>

text \<open>
  C1, as the specification states it, fails: the filter compares with \<^verbatim>\<open>"Both sexes"\<close>,
  capital B. A row whose gender is \<^verbatim>\<open>"both sexes"\<close> is dropped and the surviving row's
  gender is not \<^verbatim>\<open>"both sexes"\<close>.
\<close>

theorem gender_filter_lowercase_counterexample:
  "gender_filter \<lparr>columns = [''gender''], rows = [[Text ''both sexes''], [Text ''Both sexes'']]\<rparr>
     = Inr (\<lparr>columns = [''gender''], rows = [[Text ''Both sexes'']]\<rparr> :: real table)"
  by (simp add: gender_filter_def)

text \<open>
  C1, amended: on every table with a gender column the filter returns exactly the rows
  whose gender cell is the string \<^verbatim>\<open>"Both sexes"\<close> (exact, case-sensitive), in their
  order; rows with any other gender or a missing gender are excluded, and every surviving
  row has gender \<^verbatim>\<open>"Both sexes"\<close>.
\<close>

theorem gender_filter_exact:
  assumes "get_loc ''gender'' (columns df) = Some g"
  shows "\<exists>out. gender_filter df = Inr out \<and> columns out = columns df
           \<and> rows out = filter (\<lambda>r. r ! g = Text ''Both sexes'') (rows df)
           \<and> set (rows out) = {r \<in> set (rows df). r ! g = Text ''Both sexes''}
           \<and> list_all (\<lambda>r. r ! g = Text ''Both sexes'') (rows out)"
  using assms by (simp add: gender_filter_def list_all_iff)

theorem gender_filter_exact_witness:
  "\<exists>out. gender_filter \<lparr>columns = [''country'', ''gender''],
               rows = [[Text ''France'', Text ''Male''], [Text ''France'', Text ''Both sexes''], [Text ''Peru'', Null]]\<rparr> = Inr out
      \<and> rows out = [[Text ''France'', Text ''Both sexes'' :: real cell]]"
  using gender_filter_exact [of "\<lparr>columns = [''country'', ''gender''],
               rows = [[Text ''France'', Text ''Male''], [Text ''France'', Text ''Both sexes''], [Text ''Peru'', Null :: real cell]]\<rparr>" 1]
  by auto

section \<open>Adding the continent\<close>

lemma setitem_old:
  "get_loc label (columns df) = Some k \<Longrightarrow>
     setitem label f df = df\<lparr>rows := map (\<lambda>r. r[k := f r]) (rows df)\<rparr>"
  by (simp add: setitem_def)

lemma setitem_new:
  "label \<notin> set (columns df) \<Longrightarrow>
     setitem label f df = df\<lparr>columns := columns df @ [label], rows := map (\<lambda>r. r @ [f r]) (rows df)\<rparr>"
  by (simp add: setitem_def get_loc_None[THEN iffD2])

lemma setitem_char:
  assumes wf: "well_formed df"
  shows "\<exists>c h. get_loc label (columns (setitem label f df)) = Some c
           \<and> (\<forall>l \<in> set (columns df). get_loc l (columns (setitem label f df)) = get_loc l (columns df))
           \<and> (\<forall>l. l \<noteq> label \<longrightarrow> (l \<in> set (columns (setitem label f df)) \<longleftrightarrow> l \<in> set (columns df)))
           \<and> rows (setitem label f df) = map h (rows df)
           \<and> well_formed (setitem label f df)
           \<and> (\<forall>r. length r = length (columns df) \<longrightarrow>
                 h r ! c = f r \<and> (\<forall>i < length (columns df). i \<noteq> c \<longrightarrow> h r ! i = r ! i))"
proof (cases "get_loc label (columns df)")
  case None
  then have nin: "label \<notin> set (columns df)" by (simp add: get_loc_None)
  let ?h = "\<lambda>r. r @ [f r]"
  have "get_loc label (columns (setitem label f df)) = Some (length (columns df))"
    using nin by (simp add: setitem_new get_loc_snoc_new)
  moreover have "\<forall>l \<in> set (columns df). get_loc l (columns (setitem label f df)) = get_loc l (columns df)"
    using nin by (simp add: setitem_new get_loc_append)
  moreover have "\<forall>l. l \<noteq> label \<longrightarrow> (l \<in> set (columns (setitem label f df)) \<longleftrightarrow> l \<in> set (columns df))"
    using nin by (simp add: setitem_new)
  moreover have "rows (setitem label f df) = map ?h (rows df)"
    using nin by (simp add: setitem_new)
  moreover have "well_formed (setitem label f df)"
    using nin wf by (simp add: setitem_new well_formed_def list_all_iff)
  moreover have "\<forall>r. length r = length (columns df) \<longrightarrow>
                 ?h r ! length (columns df) = f r \<and> (\<forall>i < length (columns df). i \<noteq> length (columns df) \<longrightarrow> ?h r ! i = r ! i)"
    by (simp add: nth_append)
  ultimately show ?thesis by blast
next
  case (Some k)
  let ?h = "\<lambda>r. r[k := f r]"
  have kl: "k < length (columns df)" using Some get_loc_Some by blast
  have "get_loc label (columns (setitem label f df)) = Some k"
    using Some by (simp add: setitem_old)
  moreover have "\<forall>l \<in> set (columns df). get_loc l (columns (setitem label f df)) = get_loc l (columns df)"
    using Some by (simp add: setitem_old)
  moreover have "\<forall>l. l \<noteq> label \<longrightarrow> (l \<in> set (columns (setitem label f df)) \<longleftrightarrow> l \<in> set (columns df))"
    using Some by (simp add: setitem_old)
  moreover have "rows (setitem label f df) = map ?h (rows df)"
    using Some by (simp add: setitem_old)
  moreover have "well_formed (setitem label f df)"
    using Some wf by (simp add: setitem_old well_formed_def list_all_iff)
  moreover have "\<forall>r. length r = length (columns df) \<longrightarrow>
                 ?h r ! k = f r \<and> (\<forall>i < length (columns df). i \<noteq> k \<longrightarrow> ?h r ! i = r ! i)"
    using kl by simp
  ultimately show ?thesis by blast
qed

lemma geo_enricher_char:
  assumes wf: "well_formed df" and k: "get_loc ''country'' (columns df) = Some k"
  shows "\<exists>out c h. geo_enricher lib df = Inr out
           \<and> get_loc ''continent'' (columns out) = Some c \<and> c \<noteq> k
           \<and> (\<forall>l \<in> set (columns df). get_loc l (columns out) = get_loc l (columns df))
           \<and> (\<forall>l. l \<noteq> ''continent'' \<longrightarrow> (l \<in> set (columns out) \<longleftrightarrow> l \<in> set (columns df)))
           \<and> rows out = map h (rows df)
           \<and> well_formed out
           \<and> (\<forall>r. length r = length (columns df) \<longrightarrow>
                 h r ! c = continent_cell lib (r ! k) \<and> (\<forall>i < length (columns df). i \<noteq> c \<longrightarrow> h r ! i = r ! i))"
proof -
  let ?f = "\<lambda>r. continent_cell lib (r ! k)"
  let ?out = "setitem ''continent'' ?f df"
  from setitem_char[OF wf, of "''continent''" ?f] obtain c h where
    c: "get_loc ''continent'' (columns ?out) = Some c"
    and keep: "\<forall>l \<in> set (columns df). get_loc l (columns ?out) = get_loc l (columns df)"
    and mem: "\<forall>l. l \<noteq> ''continent'' \<longrightarrow> (l \<in> set (columns ?out) \<longleftrightarrow> l \<in> set (columns df))"
    and rs: "rows ?out = map h (rows df)"
    and wfo: "well_formed ?out"
    and h: "\<forall>r. length r = length (columns df) \<longrightarrow>
                 h r ! c = ?f r \<and> (\<forall>i < length (columns df). i \<noteq> c \<longrightarrow> h r ! i = r ! i)"
    by blast
  have kin: "''country'' \<in> set (columns df)" using k get_loc_None[of "''country''" "columns df"] by auto
  then have "get_loc ''country'' (columns ?out) = Some k" using keep k by simp
  then have "columns ?out ! k = ''country''" using get_loc_Some by blast
  moreover have "columns ?out ! c = ''continent''" using c get_loc_Some by blast
  ultimately have "c \<noteq> k" by auto
  moreover have "geo_enricher lib df = Inr ?out" using k by (simp add: geo_enricher_def)
  ultimately show ?thesis using c keep mem rs wfo h by blast
qed





section \<open>The chart inputs\<close>

lemma dropna_rows:
  "dropna labels df = Inr out \<Longrightarrow>
     columns out = columns df \<and> set labels \<subseteq> set (columns df)
     \<and> rows out = filter (\<lambda>r. list_all (notna_at (columns df) r) labels) (rows df)"
  by (auto simp: dropna_def Let_def filter_empty_conv split: if_splits)

text \<open>
  C2, amended: a row of the enriched table whose country is not resolved has a null
  continent and is in no bubble chart input; it is in the scatter chart input exactly when
  its two plotted attributes are not null (line 54 drops on those two columns only).
\<close>

theorem unresolved_country_charts:
  assumes wf: "well_formed fb" and geo: "geo_enricher lib fb = Inr both"
    and k: "get_loc ''country'' (columns both) = Some k"
    and r: "r \<in> set (rows both)" and un: "continent_cell lib (r ! k) = Null"
  shows "\<exists>c. get_loc ''continent'' (columns both) = Some c \<and> r ! c = Null
           \<and> (\<forall>gap. df_gapminder both = Inr gap \<longrightarrow> r \<notin> set (rows gap))
           \<and> (\<forall>sc. df_scatter both = Inr sc \<longrightarrow>
                 (r \<in> set (rows sc) \<longleftrightarrow>
                    notna_at (columns both) r ''diet composition fruit and vegetables''
                    \<and> notna_at (columns both) r ''life expectancy''))"
proof -
  from geo obtain k0 where k0: "get_loc ''country'' (columns fb) = Some k0"
    by (auto simp: geo_enricher_def split: option.splits)
  from geo_enricher_char[OF wf k0, of lib] geo obtain c h where
    c: "get_loc ''continent'' (columns both) = Some c" and ck: "c \<noteq> k0"
    and keep: "\<forall>l \<in> set (columns fb). get_loc l (columns both) = get_loc l (columns fb)"
    and rs: "rows both = map h (rows fb)"
    and h: "\<forall>r. length r = length (columns fb) \<longrightarrow>
                 h r ! c = continent_cell lib (r ! k0) \<and> (\<forall>i < length (columns fb). i \<noteq> c \<longrightarrow> h r ! i = r ! i)"
    by auto
  have kin: "''country'' \<in> set (columns fb)" using k0 get_loc_None[of "''country''" "columns fb"] by auto
  then have kk: "k = k0" using keep k k0 by auto
  have kl: "k0 < length (columns fb)" using k0 get_loc_Some by blast
  from r rs obtain r0 where r0: "r0 \<in> set (rows fb)" "r = h r0" by auto
  then have len: "length r0 = length (columns fb)"
    using wf by (simp add: well_formed_def list_all_iff)
  have "r ! k0 = r0 ! k0" using h len kl ck r0 by auto
  moreover have "r ! c = continent_cell lib (r0 ! k0)" using h len r0 by auto
  ultimately have null: "r ! c = Null" using un kk by simp
  have gapm: "\<forall>gap. df_gapminder both = Inr gap \<longrightarrow> r \<notin> set (rows gap)"
  proof (intro allI impI)
    fix gap assume "df_gapminder both = Inr gap"
    then have "rows gap = filter (\<lambda>r. list_all (notna_at (columns both) r)
        [''gdp per capita'', ''life expectancy'', ''total population'', ''continent'', ''year'']) (rows both)"
      unfolding df_gapminder_def using dropna_rows by blast
    then show "r \<notin> set (rows gap)" using null c by (simp add: notna_at_def)
  qed
  have scat: "\<forall>sc. df_scatter both = Inr sc \<longrightarrow>
                 (r \<in> set (rows sc) \<longleftrightarrow>
                    notna_at (columns both) r ''diet composition fruit and vegetables''
                    \<and> notna_at (columns both) r ''life expectancy'')"
  proof (intro allI impI)
    fix sc assume "df_scatter both = Inr sc"
    then have "rows sc = filter (\<lambda>r. list_all (notna_at (columns both) r)
        [''diet composition fruit and vegetables'', ''life expectancy'']) (rows both)"
      unfolding df_scatter_def using dropna_rows by blast
    then show "r \<in> set (rows sc) \<longleftrightarrow>
                    notna_at (columns both) r ''diet composition fruit and vegetables''
                    \<and> notna_at (columns both) r ''life expectancy''" using r by simp
  qed
  show ?thesis using c null gapm scat by blast
qed

lemmas ev = normalizer_def clean_col_def coerce_year_def year_cell_def year_value_def
  numeric_cell_def
  to_numeric_coerce_def digits_pd_def dtype_is_object_def is_Text_def to_numeric_ignore_def
  digit_value_def map_column_def gender_filter_def geo_enricher_def setitem_def
  country_to_continent_def france_pc_def df_both_def dropna_def df_scatter_def df_gapminder_def
  notna_at_def well_formed_def

text \<open>
  C2, as the specification states it, fails: a row for the unresolved country Neverland
  gets a null continent and stays in the scatter chart's data.
\<close>

theorem neverland_in_scatter_counterexample:
  "df_both digits_pd france_pc
     \<lparr>columns = [''Country'', ''Gender'', ''Diet Composition Fruit And Vegetables'', ''Life Expectancy''],
      rows = [[Text ''Neverland'', Text ''Both sexes'', Num 90, Num 70]]\<rparr>
   = Inr \<lparr>columns = [''country'', ''gender'', ''diet composition fruit and vegetables'', ''life expectancy'', ''continent''],
          rows = [[Text ''Neverland'', Text ''Both sexes'', Num 90, Num 70, Null]]\<rparr>
   \<and> df_scatter
     \<lparr>columns = [''country'', ''gender'', ''diet composition fruit and vegetables'', ''life expectancy'', ''continent''],
      rows = [[Text ''Neverland'', Text ''Both sexes'', Num 90, Num 70, Null :: real cell]]\<rparr>
   = Inr \<lparr>columns = [''country'', ''gender'', ''diet composition fruit and vegetables'', ''life expectancy'', ''continent''],
          rows = [[Text ''Neverland'', Text ''Both sexes'', Num 90, Num 70, Null]]\<rparr>"
  by (simp add: ev)


lemmas ev_script = script_def scatter_chart_builder_def bubble_chart_builder_def years_def
  year_values_def year_range_def year_selection_def year_slider_def scatter_path_def bubble_path_def



theorem unresolved_country_charts_witness:
  "\<exists>c. get_loc ''continent'' [''country'', ''gdp per capita'', ''life expectancy'', ''total population'',
                                  ''year'', ''diet composition fruit and vegetables'', ''continent''] = Some c
        \<and> [Text ''Neverland'', Num 900, Num 70, Num 5000, Int64 2010, Num 90, Null :: real cell] ! c = Null
        \<and> df_gapminder \<lparr>columns = [''country'', ''gdp per capita'', ''life expectancy'', ''total population'',
                                  ''year'', ''diet composition fruit and vegetables'', ''continent''],
                         rows = [[Text ''Neverland'', Num 900, Num 70, Num 5000, Int64 2010, Num 90, Null :: real cell]]\<rparr>
            = Inr \<lparr>columns = [''country'', ''gdp per capita'', ''life expectancy'', ''total population'',
                                  ''year'', ''diet composition fruit and vegetables'', ''continent''],
                         rows = []\<rparr>"
proof -
  let ?fb = "\<lparr>columns = [''country'', ''gdp per capita'', ''life expectancy'', ''total population'',
                            ''year'', ''diet composition fruit and vegetables''],
               rows = [[Text ''Neverland'', Num 900, Num 70, Num 5000, Int64 2010, Num 90 :: real cell]]\<rparr>"
  let ?r = "[Text ''Neverland'', Num 900, Num 70, Num 5000, Int64 2010, Num 90, Null :: real cell]"
  let ?both = "\<lparr>columns = [''country'', ''gdp per capita'', ''life expectancy'', ''total population'',
                            ''year'', ''diet composition fruit and vegetables'', ''continent''],
                 rows = [?r]\<rparr>"
  have h1: "well_formed ?fb" by (simp add: well_formed_def)
  have h2: "geo_enricher france_pc ?fb = Inr ?both"
    by (simp add: geo_enricher_def setitem_def country_to_continent_def france_pc_def)
  have h3: "get_loc ''country'' (columns ?both) = Some 0" by simp
  have h4: "?r \<in> set (rows ?both)" by simp
  have h5: "continent_cell france_pc (?r ! 0) = Null"
    by (simp add: country_to_continent_def france_pc_def)
  from unresolved_country_charts[OF h1 h2 h3 h4 h5]
  obtain c where "get_loc ''continent'' (columns ?both) = Some c" "?r ! c = Null" by blast
  moreover have "df_gapminder ?both = Inr (?both\<lparr>rows := []\<rparr>)"
    by (simp add: df_gapminder_def dropna_def notna_at_def)
  ultimately show ?thesis by simp
qed

lemma paths_differ: "bubble_path \<noteq> scatter_path"
  by (simp add: bubble_path_def scatter_path_def)

text \<open>
  C10, as the specification states it, fails: when the bubble chart builder ends with
  IndexError, a chart document has been written, the scatter chart of line 94.
\<close>

theorem scatter_written_before_index_error_counterexample:
  "script digits_pd france_pc
     \<lparr>columns = [''Country'', ''Gender'', ''Year'', ''GDP per capita'', ''Life expectancy'',
                 ''Total population'', ''Diet composition fruit and vegetables''],
      rows = [[Text ''France'', Text ''Male'', Num 2010, Num 35000, Num 81, Num 65000000, Num 90]]\<rparr>
   = ([scatter_path], Some IndexError)"
  by (simp add: ev ev_script)

text \<open>
  C10, amended: when the bubble chart's data has no row, the list of years is empty and the
  bubble chart builder ends with IndexError (not with the KeyError of a missing column)
  before it writes its document, which is never written. The run ends with this IndexError
  after the scatter chart document has been written; or, when a column of the scatter
  chart is missing, it has ended before with the KeyError of the scatter chart builder and
  no document.
\<close>

theorem bubble_builder_empty_years:
  assumes "df_both p lib t = Inr both" and "df_gapminder both = Inr gap" and "rows gap = []"
  shows "years gap = [] \<and> bubble_chart_builder both = ([], Some IndexError)
           \<and> script p lib t = (case df_scatter both of
                                  Inl e \<Rightarrow> ([], Some e)
                                | Inr sc \<Rightarrow> ([scatter_path], Some IndexError))
           \<and> (\<forall>e. df_scatter both = Inl e \<longrightarrow>
                  e = KeyError (filter (\<lambda>c. c \<notin> set (columns both))
                                 [''diet composition fruit and vegetables'', ''life expectancy'']))
           \<and> bubble_path \<notin> set (fst (script p lib t))"
proof -
  have y: "years gap = []"
    using assms(3) by (simp add: years_def year_values_def split: option.splits)
  then have b: "bubble_chart_builder both = ([], Some IndexError)"
    using assms(2) by (simp add: bubble_chart_builder_def year_range_def)
  have s: "script p lib t = (case df_scatter both of
                                  Inl e \<Rightarrow> ([], Some e)
                                | Inr sc \<Rightarrow> ([scatter_path], Some IndexError))"
    using assms(1) b by (simp add: script_def scatter_chart_builder_def split: sum.splits)
  have k: "\<forall>e. df_scatter both = Inl e \<longrightarrow>
                  e = KeyError (filter (\<lambda>c. c \<notin> set (columns both))
                                 [''diet composition fruit and vegetables'', ''life expectancy''])"
    by (auto simp: df_scatter_def dropna_def Let_def split: if_splits)
  have "bubble_path \<notin> set (fst (script p lib t))"
    unfolding s using paths_differ by (simp split: sum.splits)
  then show ?thesis using y b s k by blast
qed

theorem bubble_builder_empty_years_witness:
  "df_gapminder
     \<lparr>columns = [''country'', ''gender'', ''year'', ''gdp per capita'', ''life expectancy'',
                 ''total population'', ''diet composition fruit and vegetables'', ''continent''],
      rows = [[Text ''France'', Text ''Both sexes'', Int64 2010, Null, Num 81, Num 65000000, Num 90,
               Text ''Europe'' :: real cell]]\<rparr>
   = Inr \<lparr>columns = [''country'', ''gender'', ''year'', ''gdp per capita'', ''life expectancy'',
                 ''total population'', ''diet composition fruit and vegetables'', ''continent''],
          rows = []\<rparr>
   \<and> script digits_pd france_pc
     \<lparr>columns = [''Country'', ''Gender'', ''Year'', ''GDP per capita'', ''Life expectancy'',
                 ''Total population'', ''Diet composition fruit and vegetables''],
      rows = [[Text ''France'', Text ''Both sexes'', Num 2010, Null, Num 81, Num 65000000, Num 90]]\<rparr>
   = ([scatter_path], Some IndexError)"
proof -
  let ?t = "\<lparr>columns = [''Country'', ''Gender'', ''Year'', ''GDP per capita'', ''Life expectancy'',
                 ''Total population'', ''Diet composition fruit and vegetables''],
      rows = [[Text ''France'', Text ''Both sexes'', Num 2010, Null, Num 81, Num 65000000, Num 90 :: real cell]]\<rparr>"
  let ?both = "\<lparr>columns = [''country'', ''gender'', ''year'', ''gdp per capita'', ''life expectancy'',
                 ''total population'', ''diet composition fruit and vegetables'', ''continent''],
      rows = [[Text ''France'', Text ''Both sexes'', Int64 2010, Null, Num 81, Num 65000000, Num 90,
               Text ''Europe'' :: real cell]]\<rparr>"
  have h1: "df_both digits_pd france_pc ?t = Inr ?both"
    by (simp add: ev)
  have h2: "df_gapminder ?both = Inr (?both\<lparr>rows := []\<rparr>)"
    by (simp add: df_gapminder_def dropna_def notna_at_def)
  have h3: "rows (?both\<lparr>rows := []\<rparr>) = []" by simp
  have sc: "df_scatter ?both = Inr ?both"
    by (simp add: df_scatter_def dropna_def notna_at_def)
  from bubble_builder_empty_years[OF h1 h2 h3]
  have "script digits_pd france_pc ?t = ([scatter_path], Some IndexError)"
    unfolding sc by simp
  then show ?thesis using h2 by simp
qed

section \<open>Removing duplicate rows\<close>

lemma set_drop_duplicates: "set (drop_duplicates xs) = set xs"
  by (induction xs rule: drop_duplicates.induct) auto

lemma distinct_drop_duplicates: "distinct (drop_duplicates xs)"
  by (induction xs rule: drop_duplicates.induct) (auto simp: set_drop_duplicates)

lemma drop_duplicates_distinct_id: "distinct xs \<Longrightarrow> drop_duplicates xs = xs"
proof (induction xs)
  case Nil
  then show ?case by simp
next
  case (Cons x xs)
  then have "filter (\<lambda>y. y \<noteq> x) xs = xs" by (auto simp: filter_id_conv)
  with Cons show ?case by simp
qed

lemma drop_duplicates_idem: "drop_duplicates (drop_duplicates xs) = drop_duplicates xs"
  by (simp add: drop_duplicates_distinct_id distinct_drop_duplicates)

lemma drop_duplicates_snoc:
  "drop_duplicates (xs @ [x]) = drop_duplicates xs @ (if x \<in> set xs then [] else [x])"
proof (induction xs rule: drop_duplicates.induct)
  case 1
  then show ?case by simp
next
  case (2 y ys)
  show ?case
  proof (cases "x = y")
    case True
    then show ?thesis by simp
  next
    case False
    then show ?thesis using 2 by auto
  qed
qed

lemma drop_duplicates_first_occurrences:
  "drop_duplicates xs = map ((!) xs) (filter (\<lambda>i. xs ! i \<notin> set (take i xs)) [0..<length xs])"
proof (induction xs rule: rev_induct)
  case Nil
  then show ?case by simp
next
  case (snoc x xs)
  let ?P = "\<lambda>ys i. ys ! i \<notin> set (take i ys)"
  have a: "filter (?P (xs @ [x])) [0..<length xs] = filter (?P xs) [0..<length xs]"
    by (rule filter_cong) (auto simp: nth_append)
  have b: "map ((!) (xs @ [x])) (filter (?P xs) [0..<length xs])
         = map ((!) xs) (filter (?P xs) [0..<length xs])"
    by (rule map_cong) (auto simp: nth_append)
  have c: "map ((!) (xs @ [x])) (filter (?P (xs @ [x])) [length xs])
         = (if x \<in> set xs then [] else [x])"
    by simp
  have "map ((!) (xs @ [x])) (filter (?P (xs @ [x])) [0..<length (xs @ [x])])
      = map ((!) (xs @ [x])) (filter (?P (xs @ [x])) [0..<length xs])
        @ map ((!) (xs @ [x])) (filter (?P (xs @ [x])) [length xs])"
    by (simp only: length_append_singleton upt_Suc_append[OF le0] filter_append map_append)
  also have "\<dots> = map ((!) xs) (filter (?P xs) [0..<length xs]) @ (if x \<in> set xs then [] else [x])"
    by (simp only: a b c)
  also have "\<dots> = drop_duplicates (xs @ [x])"
    by (simp only: drop_duplicates_snoc snoc)
  finally show ?case by (rule sym)
qed

section \<open>Columns of a table\<close>

lemma count_list_distinct: "distinct xs \<Longrightarrow> count_list xs x \<le> 1"
  by (induction xs) auto

lemma get_loc_nth: "distinct cs \<Longrightarrow> j < length cs \<Longrightarrow> get_loc (cs ! j) cs = Some j"
proof (induction cs arbitrary: j)
  case Nil
  then show ?case by simp
next
  case (Cons c cs)
  then show ?case by (cases j) auto
qed

lemma lower_char_idem: "lower_char (lower_char c) = lower_char c"
proof (cases c)
  case (Char b0 b1 b2 b3 b4 b5 b6 b7)
  show ?thesis unfolding Char
    by (cases b0; cases b1; cases b2; cases b3; cases b4; cases b5; cases b6; cases b7) simp_all
qed

lemma clean_col_idem: "clean_col (clean_col name) = clean_col name"
  by (simp add: clean_col_def lower_char_idem)


lemma dtype_is_object_column: "dtype_is_object j rs = list_ex is_Text (column_values j rs)"
  by (simp add: dtype_is_object_def column_values_def list_ex_iff)

lemma parses_column:
  "list_all (\<lambda>r. to_numeric_cell p False (r ! j) \<noteq> None) rs = parses p (column_values j rs)"
  by (simp add: parses_def column_values_def list_all_iff)

lemma column_values_map_column:
  assumes "\<forall>r \<in> set rs. length r = n" and "j < n"
  shows "column_values i (map_column j f rs)
           = (if i = j then map f (column_values j rs) else column_values i rs)"
  using assms by (auto simp: column_values_def map_column_def)

lemma length_map_column: "length (map_column j f rs) = length rs"
  by (simp add: map_column_def)

lemma row_length_map_column:
  "\<forall>r \<in> set rs. length r = n \<Longrightarrow> \<forall>r \<in> set (map_column j f rs). length r = n"
  by (auto simp: map_column_def)

lemma to_numeric_ignore_eq:
  "to_numeric_ignore p j rs
     = (if parses p (column_values j rs) then map_column j (numeric_cell p) rs else rs)"
  unfolding to_numeric_ignore_def parses_column by simp

lemma column_values_to_numeric_ignore:
  assumes "\<forall>r \<in> set rs. length r = n" and "j < n"
  shows "column_values i (to_numeric_ignore p j rs)
           = (if i = j \<and> parses p (column_values j rs)
              then map (numeric_cell p) (column_values j rs) else column_values i rs)"
  using column_values_map_column[OF assms] by (simp add: to_numeric_ignore_eq)

lemma length_to_numeric_ignore: "length (to_numeric_ignore p j rs) = length rs"
  by (simp add: to_numeric_ignore_eq length_map_column)

lemma row_length_to_numeric_ignore:
  "\<forall>r \<in> set rs. length r = n \<Longrightarrow> \<forall>r \<in> set (to_numeric_ignore p j rs). length r = n"
  using row_length_map_column[of rs n j "numeric_cell p"] by (simp add: to_numeric_ignore_eq)

lemma well_formed_rows: "well_formed df \<longleftrightarrow> (\<forall>r \<in> set (rows df). length r = length (columns df))"
  by (simp add: well_formed_def list_all_iff)

lemma numeric_loop_char:
  assumes "distinct (columns df)" and "well_formed df" and "set ls \<subseteq> set (columns df)"
    and "distinct ls"
  shows "\<exists>out. numeric_loop p ls df = Inr out \<and> columns out = columns df \<and> well_formed out
           \<and> length (rows out) = length (rows df)
           \<and> (\<forall>i < length (columns df).
                 column_values i (rows out)
                   = (if columns df ! i \<in> set ls \<and> columns df ! i \<notin> set [''country'', ''gender'']
                         \<and> list_ex is_Text (column_values i (rows df))
                         \<and> parses p (column_values i (rows df))
                      then map (numeric_cell p) (column_values i (rows df))
                      else column_values i (rows df)))"
  using assms
proof (induction ls arbitrary: df)
  case Nil
  then show ?case by simp
next
  case (Cons col ls)
  let ?n = "length (columns df)"
  let ?cond = "dtype_is_object (the (get_loc col (columns df))) (rows df) \<and> col \<notin> set [''country'', ''gender'']"
  from Cons.prems(3) have "col \<in> set (columns df)" by simp
  then obtain j where j: "get_loc col (columns df) = Some j"
    using get_loc_None[of col "columns df"] by (cases "get_loc col (columns df)") auto
  then have jn: "j < ?n" and cj: "columns df ! j = col" using get_loc_Some by blast+
  have cnt: "\<not> 1 < count_list (columns df) col"
    using count_list_distinct[OF Cons.prems(1), of col] by simp
  define df' where "df' = (if dtype_is_object j (rows df) \<and> col \<notin> set [''country'', ''gender'']
             then df\<lparr>rows := to_numeric_ignore p j (rows df)\<rparr> else df)"
  have step: "numeric_loop p (col # ls) df = numeric_loop p ls df'"
    using j cnt by (simp add: df'_def)
  have rl: "\<forall>r \<in> set (rows df). length r = ?n" using Cons.prems(2) by (simp add: well_formed_rows)
  have cols': "columns df' = columns df" by (simp add: df'_def)
  have wf': "well_formed df'"
    using row_length_to_numeric_ignore[OF rl, of p j] Cons.prems(2)
    by (simp add: df'_def well_formed_rows)
  have len': "length (rows df') = length (rows df)"
    by (simp add: df'_def length_to_numeric_ignore)
  have col': "column_values i (rows df')
       = (if i = j \<and> col \<notin> set [''country'', ''gender'']
             \<and> list_ex is_Text (column_values j (rows df)) \<and> parses p (column_values j (rows df))
          then map (numeric_cell p) (column_values j (rows df)) else column_values i (rows df))" for i
  proof (cases "i = j")
    case True
    then show ?thesis
      using column_values_to_numeric_ignore[OF rl jn, of j p]
      by (simp add: df'_def dtype_is_object_column)
  next
    case False
    then show ?thesis
      using column_values_to_numeric_ignore[OF rl jn, of i p]
      by (simp add: df'_def dtype_is_object_column)
  qed
  from Cons.IH[of df'] Cons.prems cols' wf'
  obtain out where out: "numeric_loop p ls df' = Inr out" "columns out = columns df" "well_formed out"
    "length (rows out) = length (rows df')"
    and ih: "\<forall>i < ?n. column_values i (rows out)
                   = (if columns df ! i \<in> set ls \<and> columns df ! i \<notin> set [''country'', ''gender'']
                         \<and> list_ex is_Text (column_values i (rows df'))
                         \<and> parses p (column_values i (rows df'))
                      then map (numeric_cell p) (column_values i (rows df'))
                      else column_values i (rows df'))"
    by auto
  have "\<forall>i < ?n. column_values i (rows out)
                   = (if columns df ! i \<in> set (col # ls) \<and> columns df ! i \<notin> set [''country'', ''gender'']
                         \<and> list_ex is_Text (column_values i (rows df))
                         \<and> parses p (column_values i (rows df))
                      then map (numeric_cell p) (column_values i (rows df))
                      else column_values i (rows df))"
  proof (intro allI impI)
    fix i assume i: "i < ?n"
    show "column_values i (rows out)
                   = (if columns df ! i \<in> set (col # ls) \<and> columns df ! i \<notin> set [''country'', ''gender'']
                         \<and> list_ex is_Text (column_values i (rows df))
                         \<and> parses p (column_values i (rows df))
                      then map (numeric_cell p) (column_values i (rows df))
                      else column_values i (rows df))"
    proof (cases "i = j")
      case True
      have "col \<notin> set ls" using Cons.prems(4) by simp
      then have "column_values j (rows out) = column_values j (rows df')"
        using ih jn cj by simp
      then show ?thesis using True cj col'[of j] by simp
    next
      case False
      then have ne: "columns df ! i \<noteq> col"
        using Cons.prems(1) i jn cj nth_eq_iff_index_eq by blast
      have "column_values i (rows df') = column_values i (rows df)"
        using False col'[of i] by simp
      then show ?thesis using ih i ne by simp
    qed
  qed
  then show ?case using step out len' by simp
qed

section \<open>The Normalizer, column by column\<close>

lemma year_cell_Some: "year_cell p c = Some v \<Longrightarrow> v = Null \<or> (\<exists>i. v = Int64 i)"
  by (cases c) (auto simp: year_cell_def to_numeric_coerce_def split: parsed.splits)

lemma year_cell_fixed: "c = Null \<or> (\<exists>i. c = Int64 i) \<Longrightarrow> year_cell p c = Some c"
  by (auto simp: year_cell_def to_numeric_coerce_def)

lemma numeric_cell_not_Text: "to_numeric_cell p False c \<noteq> None \<Longrightarrow> \<not> is_Text (numeric_cell p c)"
  by (cases c) (auto simp: numeric_cell_def is_Text_def split: parsed.splits)

lemma numeric_cell_fixed: "\<not> is_Text c \<Longrightarrow> to_numeric_cell p coerce c = Some c"
  by (cases c) (auto simp: is_Text_def)

lemma no_Text_parses:
  assumes "\<not> list_ex is_Text cs"
  shows "parses p cs \<and> map (numeric_cell p) cs = cs"
proof -
  have "\<forall>c \<in> set cs. to_numeric_cell p False c = Some c"
    using assms numeric_cell_fixed by (auto simp: list_ex_iff)
  then show ?thesis
    by (auto simp: parses_def list_all_iff numeric_cell_def map_idI)
qed

lemma distinct_count_list: "(\<forall>x \<in> set xs. count_list xs x \<le> 1) \<Longrightarrow> distinct xs"
proof (induction xs)
  case Nil
  then show ?case by simp
next
  case (Cons x xs)
  have "count_list xs x = 0" using Cons.prems by auto
  then have "x \<notin> set xs" by (simp add: count_list_0_iff)
  moreover have "\<forall>y \<in> set xs. count_list xs y \<le> 1"
  proof
    fix y assume "y \<in> set xs"
    then have "count_list (x # xs) y \<le> 1" using Cons.prems by simp
    then show "count_list xs y \<le> 1" by (simp split: if_splits)
  qed
  ultimately show ?case using Cons.IH by simp
qed

lemma numeric_loop_labels:
  "numeric_loop p ls df = Inr out \<Longrightarrow> \<forall>l \<in> set ls. count_list (columns df) l \<le> 1"
proof (induction ls arbitrary: df)
  case Nil
  then show ?case by simp
next
  case (Cons col ls)
  from Cons.prems have c: "\<not> 1 < count_list (columns df) col"
    by (auto split: if_splits)
  show ?case
  proof (cases "get_loc col (columns df)")
    case None
    with Cons.prems c have "numeric_loop p ls df = Inr out" by simp
    from Cons.IH[OF this] c show ?thesis by auto
  next
    case (Some j)
    let ?df' = "if dtype_is_object j (rows df) \<and> col \<notin> set [''country'', ''gender'']
             then df\<lparr>rows := to_numeric_ignore p j (rows df)\<rparr> else df"
    from Cons.prems c Some have "numeric_loop p ls ?df' = Inr out" by simp
    from Cons.IH[OF this] have "\<forall>l \<in> set ls. count_list (columns ?df') l \<le> 1" .
    moreover have "columns ?df' = columns df" by simp
    ultimately show ?thesis using c by auto
  qed
qed

lemma coerce_year_char:
  assumes wf: "well_formed df" and ok: "coerce_year p df = Inr df3"
  shows "columns df3 = columns df \<and> well_formed df3 \<and> length (rows df3) = length (rows df)
           \<and> (\<forall>i < length (columns df).
                 column_values i (rows df3)
                   = (if get_loc ''year'' (columns df) = Some i
                      then map (year_value p) (column_values i (rows df))
                      else column_values i (rows df)))
           \<and> (\<forall>i. get_loc ''year'' (columns df) = Some i \<longrightarrow>
                 list_all (\<lambda>c. year_cell p c \<noteq> None) (column_values i (rows df)))"
proof (cases "get_loc ''year'' (columns df)")
  case None
  then have "df3 = df" using ok by (simp add: coerce_year_def)
  then show ?thesis using wf None by simp
next
  case (Some j)
  have jn: "j < length (columns df)" using Some get_loc_Some by blast
  have rl: "\<forall>r \<in> set (rows df). length r = length (columns df)" using wf by (simp add: well_formed_rows)
  from ok Some have all: "list_all (\<lambda>r. year_cell p (r ! j) \<noteq> None) (rows df)"
    and df3: "df3 = df\<lparr>rows := map_column j (year_value p) (rows df)\<rparr>"
    by (auto simp: coerce_year_def split: if_splits)
  have "well_formed df3"
    using row_length_map_column[OF rl, of j "year_value p"] by (simp add: df3 well_formed_rows)
  moreover have "\<forall>i < length (columns df).
                 column_values i (rows df3)
                   = (if get_loc ''year'' (columns df) = Some i
                      then map (year_value p) (column_values i (rows df))
                      else column_values i (rows df))"
    using column_values_map_column[OF rl jn, of _ "year_value p"] Some by (auto simp: df3)
  moreover have "list_all (\<lambda>c. year_cell p c \<noteq> None) (column_values j (rows df))"
    using all by (simp add: column_values_def list_all_iff)
  ultimately show ?thesis using Some by (simp add: df3 length_map_column)
qed


lemma year_value_no_Text:
  assumes "list_all (\<lambda>c. year_cell p c \<noteq> None) cs"
  shows "\<not> list_ex is_Text (map (year_value p) cs)"
proof -
  have "\<not> is_Text (year_value p c)" if "c \<in> set cs" for c
  proof -
    from that assms obtain v where v: "year_cell p c = Some v" by (auto simp: list_all_iff)
    with year_cell_Some[OF v] show ?thesis by (auto simp: year_value_def is_Text_def)
  qed
  then show ?thesis by (auto simp: list_ex_iff)
qed

lemma well_formed_drop_duplicates:
  "well_formed df \<Longrightarrow> well_formed (df\<lparr>rows := drop_duplicates (rows df)\<rparr>)"
  by (simp add: well_formed_rows set_drop_duplicates)

lemma normalizer_char:
  assumes wf: "well_formed t" and ok: "normalizer p t = Inr t'"
  shows "columns t' = map clean_col (columns t) \<and> distinct (columns t') \<and> well_formed t'
           \<and> length (rows t') = length (drop_duplicates (rows t))
           \<and> (\<forall>i < length (columns t').
                 column_values i (rows t')
                   = (if columns t' ! i = ''year''
                      then map (year_value p) (column_values i (drop_duplicates (rows t)))
                      else if columns t' ! i \<notin> set [''country'', ''gender'']
                               \<and> parses p (column_values i (drop_duplicates (rows t)))
                      then map (numeric_cell p) (column_values i (drop_duplicates (rows t)))
                      else column_values i (drop_duplicates (rows t))))
           \<and> (\<forall>i < length (columns t'). columns t' ! i = ''year'' \<longrightarrow>
                 list_all (\<lambda>c. year_cell p c \<noteq> None) (column_values i (drop_duplicates (rows t))))"
proof -
  define D where "D = drop_duplicates (rows t)"
  define df2 where "df2 = t\<lparr>columns := map clean_col (columns t), rows := D\<rparr>"
  have norm: "normalizer p t = (case coerce_year p df2 of Inl e \<Rightarrow> Inl e
                | Inr df3 \<Rightarrow> numeric_loop p (columns df3) df3)"
    by (simp add: normalizer_def Let_def df2_def D_def)
  with ok obtain df3 where c3: "coerce_year p df2 = Inr df3"
    and loop: "numeric_loop p (columns df3) df3 = Inr t'"
    by (cases "coerce_year p df2") auto
  have wf2: "well_formed df2"
    using wf by (simp add: well_formed_rows df2_def D_def set_drop_duplicates)
  note c = coerce_year_char[OF wf2 c3]
  let ?cs = "map clean_col (columns t)"
  have cols3: "columns df3 = ?cs" and wf3: "well_formed df3" and len3: "length (rows df3) = length D"
    using c by (simp_all add: df2_def)
  have col3: "column_values i (rows df3)
                   = (if get_loc ''year'' ?cs = Some i
                      then map (year_value p) (column_values i D) else column_values i D)"
    if "i < length ?cs" for i
    using c that by (simp add: df2_def)
  have yr3: "list_all (\<lambda>c. year_cell p c \<noteq> None) (column_values i D)"
    if "get_loc ''year'' ?cs = Some i" for i
    using c that by (simp add: df2_def)
  have dist: "distinct ?cs"
    using numeric_loop_labels[OF loop] distinct_count_list[of "columns df3"] cols3 by simp
  from numeric_loop_char[of df3 "columns df3" p] dist wf3 cols3 loop
  have cols': "columns t' = ?cs" and wf': "well_formed t'" and len': "length (rows t') = length (rows df3)"
    and col': "\<forall>i < length ?cs. column_values i (rows t')
                   = (if ?cs ! i \<notin> set [''country'', ''gender'']
                         \<and> list_ex is_Text (column_values i (rows df3))
                         \<and> parses p (column_values i (rows df3))
                      then map (numeric_cell p) (column_values i (rows df3))
                      else column_values i (rows df3))"
    by auto
  have main: "column_values i (rows t')
                   = (if ?cs ! i = ''year''
                      then map (year_value p) (column_values i D)
                      else if ?cs ! i \<notin> set [''country'', ''gender'']
                               \<and> parses p (column_values i D)
                      then map (numeric_cell p) (column_values i D)
                      else column_values i D)"
    and yr: "?cs ! i = ''year'' \<longrightarrow> list_all (\<lambda>c. year_cell p c \<noteq> None) (column_values i D)"
    if i: "i < length ?cs" for i
  proof -
    show "column_values i (rows t')
                   = (if ?cs ! i = ''year''
                      then map (year_value p) (column_values i D)
                      else if ?cs ! i \<notin> set [''country'', ''gender'']
                               \<and> parses p (column_values i D)
                      then map (numeric_cell p) (column_values i D)
                      else column_values i D)"
    proof (cases "?cs ! i = ''year''")
      case True
      then have g: "get_loc ''year'' ?cs = Some i" using get_loc_nth[OF dist i] by simp
      have "\<not> list_ex is_Text (map (year_value p) (column_values i D))"
        using year_value_no_Text[OF yr3[OF g]] .
      then show ?thesis using col' i col3[OF i] g True by simp
    next
      case False
      then have g: "get_loc ''year'' ?cs \<noteq> Some i" using get_loc_Some by blast
      have c3i: "column_values i (rows df3) = column_values i D" using col3[OF i] g by simp
      show ?thesis
      proof (cases "list_ex is_Text (column_values i D)")
        case True
        then show ?thesis using col' i c3i False by simp
      next
        case nt: False
        from no_Text_parses[OF nt, of p] show ?thesis using col' i c3i False nt by simp
      qed
    qed
    show "?cs ! i = ''year'' \<longrightarrow> list_all (\<lambda>c. year_cell p c \<noteq> None) (column_values i D)"
      using get_loc_nth[OF dist i] yr3 by auto
  qed
  show ?thesis
    using cols' dist wf' len' len3 main yr unfolding D_def by simp
qed


section \<open>The year column\<close>

text \<open>
  C9: a year that is a number but not a whole number is not made null. The cast to
  \<^verbatim>\<open>Int64\<close> of line 39 refuses it with TypeError, the Normalizer returns no table and the
  script writes no chart.
\<close>

theorem fractional_year_aborts:
  "normalizer digits_pd
     \<lparr>columns = [''Country'', ''Gender'', ''Year''],
      rows = [[Text ''France'', Text ''Both sexes'', Num (4021 / 2)]]\<rparr> = Inl TypeError
   \<and> script digits_pd france_pc
     \<lparr>columns = [''Country'', ''Gender'', ''Year''],
      rows = [[Text ''France'', Text ''Both sexes'', Num (4021 / 2)]]\<rparr> = ([], Some TypeError)"
  by (simp add: ev script_def)

section \<open>The other string columns\<close>

text \<open>
  C3, as the specification states it, fails: in a column holding \<^verbatim>\<open>"25"\<close> and \<^verbatim>\<open>"abc"\<close>
  the cell \<^verbatim>\<open>"25"\<close> parses as a number and stays the string \<^verbatim>\<open>"25"\<close>; the column holds
  no numeric value.
\<close>

theorem partly_numeric_column_counterexample:
  "normalizer digits_pd
     \<lparr>columns = [''Country'', ''BMI''], rows = [[Text ''France'', Text ''25''], [Text ''Peru'', Text ''abc'']]\<rparr>
     = Inr \<lparr>columns = [''country'', ''bmi''], rows = [[Text ''France'', Text ''25''], [Text ''Peru'', Text ''abc'']]\<rparr>"
  by (simp add: ev)

text \<open>
  C3, amended: a column other than country, gender and year is converted as a whole. When
  every cell of the column (after the removal of duplicate rows) parses as a number, each
  cell becomes its numeric value and no string is left; when one cell does not parse, every
  cell of the column keeps its value, also the cells that parse.
\<close>

theorem numeric_coercion_whole_column:
  assumes "well_formed t" and "normalizer p t = Inr t'" and "i < length (columns t')"
    and "columns t' ! i \<notin> set [''country'', ''gender'', ''year'']"
  shows "column_values i (rows t')
           = (if parses p (column_values i (drop_duplicates (rows t)))
              then map (numeric_cell p) (column_values i (drop_duplicates (rows t)))
              else column_values i (drop_duplicates (rows t)))
         \<and> (parses p (column_values i (drop_duplicates (rows t)))
              \<longleftrightarrow> \<not> list_ex is_Text (column_values i (rows t')))"
proof -
  let ?c = "column_values i (drop_duplicates (rows t))"
  have eq: "column_values i (rows t') = (if parses p ?c then map (numeric_cell p) ?c else ?c)"
    using normalizer_char[OF assms(1,2)] assms(3,4) by simp
  have "\<not> list_ex is_Text (map (numeric_cell p) ?c)" if "parses p ?c"
    using that numeric_cell_not_Text[of p] by (auto simp: parses_def list_all_iff list_ex_iff)
  moreover have "list_ex is_Text ?c" if "\<not> parses p ?c"
    using that no_Text_parses[of ?c p] by blast
  ultimately show ?thesis using eq by auto
qed

theorem numeric_coercion_whole_column_witness:
  "well_formed \<lparr>columns = [''Country'', ''Gender'', ''BMI''],
      rows = [[Text ''France'', Text ''Both sexes'', Text ''31''], [Text ''Peru'', Text ''Male'', Text ''unknown'' :: real cell]]\<rparr>
   \<and> normalizer digits_pd \<lparr>columns = [''Country'', ''Gender'', ''BMI''],
      rows = [[Text ''France'', Text ''Both sexes'', Text ''31''], [Text ''Peru'', Text ''Male'', Text ''unknown'']]\<rparr>
       = Inr \<lparr>columns = [''country'', ''gender'', ''bmi''],
      rows = [[Text ''France'', Text ''Both sexes'', Text ''31''], [Text ''Peru'', Text ''Male'', Text ''unknown'']]\<rparr>
   \<and> \<not> parses digits_pd [Text ''31'', Text ''unknown'']
   \<and> column_values 2 [[Text ''France'', Text ''Both sexes'', Text ''31''], [Text ''Peru'', Text ''Male'', Text ''unknown'' :: real cell]]
       = [Text ''31'', Text ''unknown'']"
proof -
  let ?t = "\<lparr>columns = [''Country'', ''Gender'', ''BMI''],
      rows = [[Text ''France'', Text ''Both sexes'', Text ''31''], [Text ''Peru'', Text ''Male'', Text ''unknown'' :: real cell]]\<rparr>"
  let ?t' = "\<lparr>columns = [''country'', ''gender'', ''bmi''],
      rows = [[Text ''France'', Text ''Both sexes'', Text ''31''], [Text ''Peru'', Text ''Male'', Text ''unknown'' :: real cell]]\<rparr>"
  have h1: "well_formed ?t" by (simp add: well_formed_def)
  have h2: "normalizer digits_pd ?t = Inr ?t'" by (simp add: ev)
  have h3: "2 < length (columns ?t')" by simp
  have h4: "columns ?t' ! 2 \<notin> set [''country'', ''gender'', ''year'']" by simp
  have np: "\<not> parses digits_pd [Text ''31'', Text ''unknown'']"
    by (simp add: parses_def digits_pd_def digit_value_def)
  from numeric_coercion_whole_column[OF h1 h2 h3 h4]
  have "column_values 2 (rows ?t') = column_values 2 (drop_duplicates (rows ?t))"
    using np by (simp add: column_values_def)
  then have "column_values 2 [[Text ''France'', Text ''Both sexes'', Text ''31''], [Text ''Peru'', Text ''Male'', Text ''unknown'' :: real cell]]
       = [Text ''31'', Text ''unknown'']"
    by (simp add: column_values_def)
  then show ?thesis using h1 h2 np by simp
qed

section \<open>Normalizing a normalized table\<close>

lemma map_column_id: "\<forall>r \<in> set rs. f (r ! j) = r ! j \<Longrightarrow> map_column j f rs = rs"
  by (simp add: map_column_def map_idI)

lemma numeric_loop_noop:
  assumes "\<forall>l \<in> set ls. count_list (columns df) l \<le> 1"
    and "\<forall>l \<in> set ls. \<forall>j. get_loc l (columns df) = Some j \<longrightarrow> l \<notin> set [''country'', ''gender'']
           \<longrightarrow> dtype_is_object j (rows df) \<longrightarrow> to_numeric_ignore p j (rows df) = rows df"
  shows "numeric_loop p ls df = Inr df"
  using assms
proof (induction ls)
  case Nil
  then show ?case by simp
next
  case (Cons col ls)
  have c: "\<not> 1 < count_list (columns df) col" using Cons.prems(1) by auto
  have ih: "numeric_loop p ls df = Inr df" using Cons by simp
  show ?case
  proof (cases "get_loc col (columns df)")
    case None
    then show ?thesis using c ih by simp
  next
    case (Some j)
    have "(if dtype_is_object j (rows df) \<and> col \<notin> set [''country'', ''gender'']
             then df\<lparr>rows := to_numeric_ignore p j (rows df)\<rparr> else df) = df"
      using Cons.prems(2) Some by auto
    then show ?thesis using c ih Some by simp
  qed
qed

lemma normalizer_output:
  assumes wf: "well_formed t" and ok: "normalizer p t = Inr t'" and j: "j < length (columns t')"
  shows "(columns t' ! j = ''year'' \<longrightarrow>
            (\<forall>v \<in> set (column_values j (rows t')). v = Null \<or> (\<exists>i. v = Int64 i)))
         \<and> (columns t' ! j \<noteq> ''year'' \<longrightarrow> columns t' ! j \<notin> set [''country'', ''gender'']
              \<longrightarrow> list_ex is_Text (column_values j (rows t'))
              \<longrightarrow> \<not> parses p (column_values j (rows t')))"
proof -
  let ?c = "column_values j (drop_duplicates (rows t))"
  note c = normalizer_char[OF wf ok]
  have "\<forall>v \<in> set (column_values j (rows t')). v = Null \<or> (\<exists>i. v = Int64 i)"
    if y: "columns t' ! j = ''year''"
  proof
    fix v assume "v \<in> set (column_values j (rows t'))"
    then have "v \<in> set (map (year_value p) ?c)" using c j y by simp
    then obtain a where a: "a \<in> set ?c" "v = year_value p a" by auto
    have "list_all (\<lambda>c. year_cell p c \<noteq> None) ?c" using c j y by simp
    then obtain w where w: "year_cell p a = Some w" using a by (auto simp: list_all_iff)
    then show "v = Null \<or> (\<exists>i. v = Int64 i)" using year_cell_Some[OF w] a by (simp add: year_value_def)
  qed
  moreover have "\<not> parses p (column_values j (rows t'))"
    if "columns t' ! j \<noteq> ''year''" "columns t' ! j \<notin> set [''country'', ''gender'']"
      and tx: "list_ex is_Text (column_values j (rows t'))"
  proof (cases "parses p ?c")
    case True
    then have "column_values j (rows t') = map (numeric_cell p) ?c" using c j that by simp
    moreover have "\<not> list_ex is_Text (map (numeric_cell p) ?c)"
      using True numeric_cell_not_Text[of p] by (auto simp: parses_def list_all_iff list_ex_iff)
    ultimately show ?thesis using tx by simp
  next
    case False
    then have "column_values j (rows t') = ?c" using c j that by simp
    then show ?thesis using False by simp
  qed
  ultimately show ?thesis by blast
qed

lemma normalizer_fixed:
  assumes wf: "well_formed u" and dist: "distinct (columns u)"
    and clean: "map clean_col (columns u) = columns u"
    and yr: "\<forall>j < length (columns u). columns u ! j = ''year'' \<longrightarrow>
               (\<forall>v \<in> set (column_values j (rows u)). v = Null \<or> (\<exists>i. v = Int64 i))"
    and tx: "\<forall>j < length (columns u). columns u ! j \<noteq> ''year'' \<longrightarrow> columns u ! j \<notin> set [''country'', ''gender'']
              \<longrightarrow> list_ex is_Text (column_values j (rows u))
              \<longrightarrow> \<not> parses p (column_values j (rows u))"
  shows "normalizer p u = Inr (u\<lparr>rows := drop_duplicates (rows u)\<rparr>)"
proof -
  define df2 where "df2 = u\<lparr>rows := drop_duplicates (rows u)\<rparr>"
  have cols2: "columns df2 = columns u" and rows2: "set (rows df2) = set (rows u)"
    by (simp_all add: df2_def set_drop_duplicates)
  have norm: "normalizer p u = (case coerce_year p df2 of Inl e \<Rightarrow> Inl e
                | Inr df3 \<Rightarrow> numeric_loop p (columns df3) df3)"
    by (simp add: normalizer_def Let_def df2_def clean)
  have cnt: "count_list (columns u) l \<le> 1" for l using count_list_distinct[OF dist] .
  have year_col: "\<forall>r \<in> set (rows u). r ! j = Null \<or> (\<exists>i. r ! j = Int64 i)"
    if "get_loc ''year'' (columns u) = Some j" for j
    using get_loc_Some[OF that] yr by (auto simp: column_values_def)
  have cy: "coerce_year p df2 = Inr df2"
  proof (cases "get_loc ''year'' (columns u)")
    case None
    then show ?thesis by (simp add: coerce_year_def cols2)
  next
    case (Some j)
    have fx: "\<forall>r \<in> set (rows df2). year_cell p (r ! j) = Some (r ! j)"
      using year_col[OF Some] year_cell_fixed[of _ p] rows2 by blast
    then have "list_all (\<lambda>r. year_cell p (r ! j) \<noteq> None) (rows df2)" by (simp add: list_all_iff)
    moreover have "map_column j (year_value p) (rows df2) = rows df2"
      using fx by (intro map_column_id) (simp add: year_value_def)
    moreover have "\<not> 1 < count_list (columns u) ''year''" using cnt[of "''year''"] by simp
    ultimately show ?thesis using Some by (simp add: coerce_year_def cols2)
  qed
  have "numeric_loop p (columns df2) df2 = Inr df2"
  proof (rule numeric_loop_noop)
    show "\<forall>l \<in> set (columns df2). count_list (columns df2) l \<le> 1" using cnt cols2 by simp
    show "\<forall>l \<in> set (columns df2). \<forall>j. get_loc l (columns df2) = Some j \<longrightarrow> l \<notin> set [''country'', ''gender'']
           \<longrightarrow> dtype_is_object j (rows df2) \<longrightarrow> to_numeric_ignore p j (rows df2) = rows df2"
    proof (intro ballI allI impI)
      fix l j
      assume g: "get_loc l (columns df2) = Some j" and l: "l \<notin> set [''country'', ''gender'']"
        and ob: "dtype_is_object j (rows df2)"
      from g have jn: "j < length (columns u)" and cj: "columns u ! j = l"
        using get_loc_Some[of l "columns u" j] cols2 by simp_all
      from ob have hasText: "list_ex is_Text (column_values j (rows u))"
        using rows2 by (simp add: dtype_is_object_def list_ex_iff column_values_def)
      have ny: "l \<noteq> ''year''"
      proof
        assume "l = ''year''"
        then have "\<forall>v \<in> set (column_values j (rows u)). v = Null \<or> (\<exists>i. v = Int64 i)"
          using yr jn cj by simp
        then show False using hasText by (auto simp: list_ex_iff is_Text_def)
      qed
      have "\<not> parses p (column_values j (rows u))" using tx jn cj ny l hasText by simp
      then have "\<not> parses p (column_values j (rows df2))"
        using rows2 by (simp add: parses_def list_all_iff column_values_def)
      then show "to_numeric_ignore p j (rows df2) = rows df2" by (simp add: to_numeric_ignore_eq)
    qed
  qed
  then show ?thesis using norm cy by (simp add: df2_def)
qed

text \<open>
  C7, as the specification states it, fails: two rows that differ only in a year that does
  not parse are both kept by the first run, which makes both years null; the second run
  finds the two rows equal and removes one.
\<close>

theorem normalizer_twice_counterexample:
  "normalizer digits_pd
     \<lparr>columns = [''Country'', ''Year''],
      rows = [[Text ''France'', Text ''n/a''], [Text ''France'', Text ''unknown'']]\<rparr>
     = Inr \<lparr>columns = [''country'', ''year''], rows = [[Text ''France'', Null], [Text ''France'', Null]]\<rparr>
   \<and> normalizer digits_pd
     \<lparr>columns = [''country'', ''year''], rows = [[Text ''France'', Null], [Text ''France'', Null]]\<rparr>
     = Inr \<lparr>columns = [''country'', ''year''], rows = [[Text ''France'', Null]]\<rparr>"
  by (simp add: ev)

text \<open>
  C7, amended: the Normalizer, run on a table it has produced, changes no column label and
  no value; it returns that table with the duplicate rows removed, which is the identical
  table when no two of its rows are equal.
\<close>

theorem normalizer_twice:
  assumes "well_formed t" and "normalizer p t = Inr t'"
  shows "normalizer p t' = Inr (t'\<lparr>rows := drop_duplicates (rows t')\<rparr>)
         \<and> (distinct (rows t') \<longrightarrow> normalizer p t' = Inr t')"
proof -
  note c = normalizer_char[OF assms]
  have "normalizer p t' = Inr (t'\<lparr>rows := drop_duplicates (rows t')\<rparr>)"
  proof (rule normalizer_fixed)
    show "well_formed t'" "distinct (columns t')" using c by blast+
    have "columns t' = map clean_col (columns t)" using c by blast
    then show "map clean_col (columns t') = columns t'" by (simp add: clean_col_idem)
    show "\<forall>j < length (columns t'). columns t' ! j = ''year'' \<longrightarrow>
               (\<forall>v \<in> set (column_values j (rows t')). v = Null \<or> (\<exists>i. v = Int64 i))"
      using normalizer_output[OF assms] by blast
    show "\<forall>j < length (columns t'). columns t' ! j \<noteq> ''year'' \<longrightarrow> columns t' ! j \<notin> set [''country'', ''gender'']
              \<longrightarrow> list_ex is_Text (column_values j (rows t'))
              \<longrightarrow> \<not> parses p (column_values j (rows t'))"
      using normalizer_output[OF assms] by blast
  qed
  then show ?thesis by (simp add: drop_duplicates_distinct_id)
qed

theorem normalizer_twice_witness:
  "well_formed \<lparr>columns = [''Country'', ''Year'', ''BMI''],
      rows = [[Text ''France'', Text ''2010'', Text ''25''], [Text ''France'', Text ''2010'', Text ''25''],
              [Text ''Peru'', Text '''', Text ''31'' :: real cell]]\<rparr>
   \<and> normalizer digits_pd \<lparr>columns = [''Country'', ''Year'', ''BMI''],
      rows = [[Text ''France'', Text ''2010'', Text ''25''], [Text ''France'', Text ''2010'', Text ''25''],
              [Text ''Peru'', Text '''', Text ''31'']]\<rparr>
     = Inr \<lparr>columns = [''country'', ''year'', ''bmi''],
      rows = [[Text ''France'', Int64 2010, Num 25], [Text ''Peru'', Null, Num 31]]\<rparr>
   \<and> normalizer digits_pd \<lparr>columns = [''country'', ''year'', ''bmi''],
      rows = [[Text ''France'', Int64 2010, Num 25], [Text ''Peru'', Null, Num 31]]\<rparr>
     = Inr \<lparr>columns = [''country'', ''year'', ''bmi''],
      rows = [[Text ''France'', Int64 2010, Num 25], [Text ''Peru'', Null, Num 31]]\<rparr>"
proof -
  let ?t = "\<lparr>columns = [''Country'', ''Year'', ''BMI''],
      rows = [[Text ''France'', Text ''2010'', Text ''25''], [Text ''France'', Text ''2010'', Text ''25''],
              [Text ''Peru'', Text '''', Text ''31'' :: real cell]]\<rparr>"
  let ?t' = "\<lparr>columns = [''country'', ''year'', ''bmi''],
      rows = [[Text ''France'', Int64 2010, Num 25], [Text ''Peru'', Null, Num 31 :: real cell]]\<rparr>"
  have h1: "well_formed ?t" by (simp add: well_formed_def)
  have h2: "normalizer digits_pd ?t = Inr ?t'" by (simp add: ev)
  have "distinct (rows ?t')" by simp
  with normalizer_twice[OF h1 h2] have "normalizer digits_pd ?t' = Inr ?t'" by blast
  then show ?thesis using h1 h2 by simp
qed


section \<open>The rows of the normalized table\<close>

lemma normalizer_rows:
  assumes wf: "well_formed t" and ok: "normalizer p t = Inr t'"
  shows "rows t' = map (\<lambda>r. map2 (\<lambda>f c. f c)
                     (map (\<lambda>i. if columns t' ! i = ''year'' then year_value p
                               else if columns t' ! i \<notin> set [''country'', ''gender'']
                                       \<and> parses p (column_values i (drop_duplicates (rows t)))
                               then numeric_cell p else id) [0 ..< length (columns t')]) r)
                  (drop_duplicates (rows t))"
proof -
  define D where "D = drop_duplicates (rows t)"
  define n where "n = length (columns t')"
  define conv where "conv = (\<lambda>i. if columns t' ! i = ''year'' then year_value p
                               else if columns t' ! i \<notin> set [''country'', ''gender'']
                                       \<and> parses p (column_values i D)
                               then numeric_cell p else id)"
  note c = normalizer_char[OF wf ok]
  have len: "length (rows t') = length D" using c by (simp add: D_def)
  have n: "n = length (columns t)" using c by (simp add: n_def)
  have rl': "\<forall>r \<in> set (rows t'). length r = n"
    using c by (simp add: well_formed_rows n_def)
  have rlD: "\<forall>r \<in> set D. length r = n"
    using wf n by (simp add: well_formed_rows D_def set_drop_duplicates)
  have col: "column_values i (rows t') = map (conv i) (column_values i D)" if "i < n" for i
    using c that by (simp add: conv_def D_def n_def)
  have "rows t' = map (\<lambda>r. map2 (\<lambda>f c. f c) (map conv [0 ..< n]) r) D"
  proof (rule nth_equalityI)
    show "length (rows t') = length (map (\<lambda>r. map2 (\<lambda>f c. f c) (map conv [0 ..< n]) r) D)"
      using len by simp
  next
    fix k assume k: "k < length (rows t')"
    then have kD: "k < length D" using len by simp
    have l1: "length (rows t' ! k) = n" using rl' k by simp
    have l2: "length (D ! k) = n" using rlD kD by simp
    have "rows t' ! k = map2 (\<lambda>f c. f c) (map conv [0 ..< n]) (D ! k)"
    proof (rule nth_equalityI)
      show "length (rows t' ! k) = length (map2 (\<lambda>f c. f c) (map conv [0 ..< n]) (D ! k))"
        using l1 l2 by simp
    next
      fix i assume "i < length (rows t' ! k)"
      then have i: "i < n" using l1 by simp
      have "rows t' ! k ! i = column_values i (rows t') ! k" using k by (simp add: column_values_def)
      also have "\<dots> = map (conv i) (column_values i D) ! k" using col[OF i] by simp
      also have "\<dots> = conv i (D ! k ! i)" using kD by (simp add: column_values_def)
      finally show "rows t' ! k ! i = map2 (\<lambda>f c. f c) (map conv [0 ..< n]) (D ! k) ! i"
        using i l2 by simp
    qed
    then show "rows t' ! k = map (\<lambda>r. map2 (\<lambda>f c. f c) (map conv [0 ..< n]) r) D ! k"
      using kD by simp
  qed
  then show ?thesis unfolding conv_def D_def n_def .
qed

text \<open>
  C8, as the specification states it, fails: two rows that differ only in a year that is
  no number (\<^verbatim>\<open>unknown\<close>, \<^verbatim>\<open>missing\<close>) are different when the duplicates are removed
  (line 29) and equal once line 39 has made both years null; both survive.
\<close>

theorem equal_rows_survive_counterexample:
  "normalizer digits_pd
     \<lparr>columns = [''Country'', ''Gender'', ''Year''],
      rows = [[Text ''Peru'', Text ''Both sexes'', Text ''unknown''],
              [Text ''Peru'', Text ''Both sexes'', Text ''missing'']]\<rparr>
     = Inr \<lparr>columns = [''country'', ''gender'', ''year''],
            rows = [[Text ''Peru'', Text ''Both sexes'', Null], [Text ''Peru'', Text ''Both sexes'', Null]]\<rparr>
   \<and> \<not> distinct [[Text ''Peru'', Text ''Both sexes'', Null], [Text ''Peru'', Text ''Both sexes'', Null :: real cell]]"
  by (simp add: ev)

text \<open>
  C8, amended: the Normalizer removes the exact duplicates among the rows of its input,
  keeping the first occurrence of each distinct row in the original order, before it
  converts any value. Its output has one row for each distinct row of the input, in that
  order: that row with each column converted (the year, a numeric column) or left as it
  is. When no conversion changes a row, no two rows of the output are equal.
\<close>

theorem normalizer_keeps_first_occurrences:
  assumes "well_formed t" and "normalizer p t = Inr t'"
  shows "\<exists>convs. length convs = length (columns t')
           \<and> set convs \<subseteq> {id, year_value p, numeric_cell p}
           \<and> rows t' = map (\<lambda>r. map2 (\<lambda>f c. f c) convs r) (drop_duplicates (rows t))
           \<and> drop_duplicates (rows t)
               = map ((!) (rows t)) (filter (\<lambda>i. rows t ! i \<notin> set (take i (rows t))) [0 ..< length (rows t)])
           \<and> distinct (drop_duplicates (rows t))
           \<and> (rows t' = drop_duplicates (rows t) \<longrightarrow> distinct (rows t'))"
proof -
  let ?convs = "map (\<lambda>i. if columns t' ! i = ''year'' then year_value p
                               else if columns t' ! i \<notin> set [''country'', ''gender'']
                                       \<and> parses p (column_values i (drop_duplicates (rows t)))
                               then numeric_cell p else id) [0 ..< length (columns t')]"
  have a1: "length ?convs = length (columns t')" by simp
  have a2: "set ?convs \<subseteq> {id, year_value p, numeric_cell p}" by auto
  have a3: "rows t' = map (\<lambda>r. map2 (\<lambda>f c. f c) ?convs r) (drop_duplicates (rows t))"
    using normalizer_rows[OF assms] .
  have a4: "drop_duplicates (rows t)
               = map ((!) (rows t)) (filter (\<lambda>i. rows t ! i \<notin> set (take i (rows t))) [0 ..< length (rows t)])"
    using drop_duplicates_first_occurrences .
  have a5: "distinct (drop_duplicates (rows t))" using distinct_drop_duplicates .
  have a6: "rows t' = drop_duplicates (rows t) \<longrightarrow> distinct (rows t')" using a5 by simp
  show ?thesis by (rule exI[of _ ?convs]) (intro conjI a1 a2 a3 a4 a5 a6)
qed

theorem normalizer_keeps_first_occurrences_witness:
  "well_formed \<lparr>columns = [''Country'', ''Gender''],
      rows = [[Text ''Peru'', Text ''Male''], [Text ''France'', Text ''Both sexes''], [Text ''Peru'', Text ''Male''],
              [Text ''France'', Text ''Both sexes''], [Text ''Chile'', Null :: real cell]]\<rparr>
   \<and> normalizer digits_pd \<lparr>columns = [''Country'', ''Gender''],
      rows = [[Text ''Peru'', Text ''Male''], [Text ''France'', Text ''Both sexes''], [Text ''Peru'', Text ''Male''],
              [Text ''France'', Text ''Both sexes''], [Text ''Chile'', Null]]\<rparr>
     = Inr \<lparr>columns = [''country'', ''gender''],
      rows = [[Text ''Peru'', Text ''Male''], [Text ''France'', Text ''Both sexes''], [Text ''Chile'', Null]]\<rparr>
   \<and> distinct [[Text ''Peru'', Text ''Male''], [Text ''France'', Text ''Both sexes''], [Text ''Chile'', Null :: real cell]]"
proof -
  let ?t = "\<lparr>columns = [''Country'', ''Gender''],
      rows = [[Text ''Peru'', Text ''Male''], [Text ''France'', Text ''Both sexes''], [Text ''Peru'', Text ''Male''],
              [Text ''France'', Text ''Both sexes''], [Text ''Chile'', Null :: real cell]]\<rparr>"
  let ?t' = "\<lparr>columns = [''country'', ''gender''],
      rows = [[Text ''Peru'', Text ''Male''], [Text ''France'', Text ''Both sexes''], [Text ''Chile'', Null :: real cell]]\<rparr>"
  have h1: "well_formed ?t" by (simp add: well_formed_def)
  have h2: "normalizer digits_pd ?t = Inr ?t'" by (simp add: ev)
  have "rows ?t' = drop_duplicates (rows ?t)" by simp
  with normalizer_keeps_first_occurrences[OF h1 h2] have "distinct (rows ?t')" by blast
  then show ?thesis using h1 h2 by simp
qed

section \<open>The order of the filter and the continent\<close>

lemma get_loc_mem: "k \<in> set cs \<Longrightarrow> \<exists>j. get_loc k cs = Some j"
  using get_loc_None[of k cs] by (cases "get_loc k cs") auto

lemma filter_enrich_commute:
  assumes wf: "well_formed df" and g: "get_loc ''gender'' (columns df) = Some g"
    and k: "get_loc ''country'' (columns df) = Some k"
  shows "\<exists>fb en both. gender_filter df = Inr fb \<and> geo_enricher lib fb = Inr both
           \<and> geo_enricher lib df = Inr en \<and> gender_filter en = Inr both
           \<and> length (rows both) = length (rows fb)"
proof -
  let ?P = "\<lambda>r. r ! g = Text ''Both sexes''"
  let ?f = "\<lambda>r. continent_cell lib (r ! k)"
  let ?fb = "df\<lparr>rows := filter ?P (rows df)\<rparr>"
  have fb: "gender_filter df = Inr ?fb" using g by (simp add: gender_filter_def)
  have en: "geo_enricher lib df = Inr (setitem ''continent'' ?f df)"
    using k by (simp add: geo_enricher_def)
  have both: "geo_enricher lib ?fb = Inr (setitem ''continent'' ?f ?fb)"
    using k by (simp add: geo_enricher_def)
  have gl: "g < length (columns df)" and gc: "columns df ! g = ''gender''"
    using g get_loc_Some by blast+
  have rl: "\<forall>r \<in> set (rows df). length r = length (columns df)" using wf by (simp add: well_formed_rows)
  have "gender_filter (setitem ''continent'' ?f df) = Inr (setitem ''continent'' ?f ?fb)
        \<and> length (rows (setitem ''continent'' ?f ?fb)) = length (rows ?fb)"
  proof (cases "get_loc ''continent'' (columns df)")
    case None
    then have nin: "''continent'' \<notin> set (columns df)" by (simp add: get_loc_None)
    have gin: "''gender'' \<in> set (columns df)" using g get_loc_None[of "''gender''" "columns df"] by auto
    have g': "get_loc ''gender'' (columns df @ [''continent'']) = Some g"
      using get_loc_append[OF gin] g by simp
    have "filter ?P (map (\<lambda>r. r @ [?f r]) (rows df)) = map (\<lambda>r. r @ [?f r]) (filter ?P (rows df))"
      unfolding filter_map comp_def
      using rl gl by (intro arg_cong[where f = "map _"] filter_cong) (simp_all add: nth_append)
    then show ?thesis using None g' by (simp add: setitem_def gender_filter_def)
  next
    case (Some c)
    have "columns df ! c = ''continent''" using Some get_loc_Some by blast
    then have cg: "c \<noteq> g" using gc by auto
    have "filter ?P (map (\<lambda>r. r[c := ?f r]) (rows df)) = map (\<lambda>r. r[c := ?f r]) (filter ?P (rows df))"
      unfolding filter_map comp_def using cg by simp
    then show ?thesis using Some g by (simp add: setitem_def gender_filter_def)
  qed
  then show ?thesis using fb en both by simp
qed

text \<open>
  C4, as the specification states it, fails: the script filters first and adds the continent
  to the filtered table. On a table with neither a gender nor a country column the script
  ends with the filter's KeyError; in the order of the specification it would end with the
  Geo-Enricher's.
\<close>

theorem enrich_then_filter_counterexample:
  "df_both digits_pd france_pc \<lparr>columns = [''Year''], rows = [[Num 2010]]\<rparr> = Inl (KeyError [''gender''])
   \<and> spec_order_df_both digits_pd france_pc \<lparr>columns = [''Year''], rows = [[Num 2010]]\<rparr>
       = Inl (KeyError [''country''])"
  by (simp add: ev spec_order_df_both_def)

text \<open>
  C4, amended: after the Normalizer the script applies the gender filter to the normalized
  table and then adds the continent to every row of the filtered table. A table with no
  gender column ends the run with the filter's KeyError, whether it has a country column or
  not; one with a gender column and no country column ends it with the KeyError of the
  continent step; a table with both columns gives the table that adding the continent
  first and filtering afterwards would give.
\<close>

theorem filter_then_enrich:
  assumes "well_formed t" and "normalizer p t = Inr df"
  shows "(''gender'' \<notin> set (columns df) \<longrightarrow> df_both p lib t = Inl (KeyError [''gender'']))
         \<and> (''gender'' \<in> set (columns df) \<longrightarrow> ''country'' \<notin> set (columns df)
              \<longrightarrow> df_both p lib t = Inl (KeyError [''country'']))
         \<and> (''gender'' \<in> set (columns df) \<longrightarrow> ''country'' \<in> set (columns df)
              \<longrightarrow> (\<exists>fb both. gender_filter df = Inr fb \<and> geo_enricher lib fb = Inr both
                     \<and> length (rows both) = length (rows fb)
                     \<and> ''continent'' \<in> set (columns both) \<and> well_formed both
                     \<and> df_both p lib t = Inr both \<and> spec_order_df_both p lib t = Inr both))"
proof (intro conjI impI)
  assume "''gender'' \<notin> set (columns df)"
  then have "get_loc ''gender'' (columns df) = None" by (simp add: get_loc_None)
  then show "df_both p lib t = Inl (KeyError [''gender''])"
    using assms(2) by (simp add: df_both_def gender_filter_def)
next
  assume "''gender'' \<in> set (columns df)" and "''country'' \<notin> set (columns df)"
  then obtain g where "get_loc ''gender'' (columns df) = Some g"
    and "get_loc ''country'' (columns df) = None"
    using get_loc_mem[of "''gender''" "columns df"] by (auto simp: get_loc_None)
  then show "df_both p lib t = Inl (KeyError [''country''])"
    using assms(2) by (simp add: df_both_def gender_filter_def geo_enricher_def)
next
  assume "''gender'' \<in> set (columns df)" and "''country'' \<in> set (columns df)"
  then obtain g k where g: "get_loc ''gender'' (columns df) = Some g"
    and k: "get_loc ''country'' (columns df) = Some k"
    using get_loc_mem by blast
  have wf: "well_formed df" using normalizer_char[OF assms] by blast
  from filter_enrich_commute[OF wf g k, of lib] obtain fb en both where
    fb: "gender_filter df = Inr fb" and both: "geo_enricher lib fb = Inr both"
    and en: "geo_enricher lib df = Inr en" "gender_filter en = Inr both"
    and len: "length (rows both) = length (rows fb)"
    by blast
  from fb g have "fb = df\<lparr>rows := filter (\<lambda>r. r ! g = Text ''Both sexes'') (rows df)\<rparr>"
    by (simp add: gender_filter_def)
  then have wffb: "well_formed fb" and kfb: "get_loc ''country'' (columns fb) = Some k"
    using wf k by (simp_all add: well_formed_rows)
  from geo_enricher_char[OF wffb kfb, of lib] both obtain c where
    c: "get_loc ''continent'' (columns both) = Some c" and wfb: "well_formed both"
    by auto
  have cin: "''continent'' \<in> set (columns both)"
    using c get_loc_None[of "''continent''" "columns both"] by auto
  have "df_both p lib t = Inr both" "spec_order_df_both p lib t = Inr both"
    using assms(2) fb both en by (simp_all add: df_both_def spec_order_df_both_def)
  then show "\<exists>fb both. gender_filter df = Inr fb \<and> geo_enricher lib fb = Inr both
                     \<and> length (rows both) = length (rows fb)
                     \<and> ''continent'' \<in> set (columns both) \<and> well_formed both
                     \<and> df_both p lib t = Inr both \<and> spec_order_df_both p lib t = Inr both"
    using fb both len cin wfb by blast
qed

theorem filter_then_enrich_witness:
  "well_formed \<lparr>columns = [''Country'', ''Gender''],
      rows = [[Text ''France'', Text ''Male''], [Text ''France'', Text ''Both sexes''],
              [Text ''Neverland'', Text ''Both sexes'' :: real cell]]\<rparr>
   \<and> df_both digits_pd france_pc \<lparr>columns = [''Country'', ''Gender''],
      rows = [[Text ''France'', Text ''Male''], [Text ''France'', Text ''Both sexes''],
              [Text ''Neverland'', Text ''Both sexes'']]\<rparr>
     = Inr \<lparr>columns = [''country'', ''gender'', ''continent''],
      rows = [[Text ''France'', Text ''Both sexes'', Text ''Europe''], [Text ''Neverland'', Text ''Both sexes'', Null]]\<rparr>
   \<and> spec_order_df_both digits_pd france_pc \<lparr>columns = [''Country'', ''Gender''],
      rows = [[Text ''France'', Text ''Male''], [Text ''France'', Text ''Both sexes''],
              [Text ''Neverland'', Text ''Both sexes'']]\<rparr>
     = Inr \<lparr>columns = [''country'', ''gender'', ''continent''],
      rows = [[Text ''France'', Text ''Both sexes'', Text ''Europe''], [Text ''Neverland'', Text ''Both sexes'', Null]]\<rparr>"
proof -
  let ?t = "\<lparr>columns = [''Country'', ''Gender''],
      rows = [[Text ''France'', Text ''Male''], [Text ''France'', Text ''Both sexes''],
              [Text ''Neverland'', Text ''Both sexes'' :: real cell]]\<rparr>"
  let ?df = "\<lparr>columns = [''country'', ''gender''],
      rows = [[Text ''France'', Text ''Male''], [Text ''France'', Text ''Both sexes''],
              [Text ''Neverland'', Text ''Both sexes'' :: real cell]]\<rparr>"
  let ?both = "\<lparr>columns = [''country'', ''gender'', ''continent''],
      rows = [[Text ''France'', Text ''Both sexes'', Text ''Europe''], [Text ''Neverland'', Text ''Both sexes'', Null :: real cell]]\<rparr>"
  have h1: "well_formed ?t" by (simp add: well_formed_def)
  have h2: "normalizer digits_pd ?t = Inr ?df" by (simp add: ev)
  have h3: "''gender'' \<in> set (columns ?df)" "''country'' \<in> set (columns ?df)" by simp_all
  from filter_then_enrich[OF h1 h2, of france_pc] h3 obtain fb both where
    fb: "gender_filter ?df = Inr fb" and b: "geo_enricher france_pc fb = Inr both"
    and d: "df_both digits_pd france_pc ?t = Inr both" and s: "spec_order_df_both digits_pd france_pc ?t = Inr both"
    by blast
  from fb have "fb = \<lparr>columns = [''country'', ''gender''],
      rows = [[Text ''France'', Text ''Both sexes''], [Text ''Neverland'', Text ''Both sexes'']]\<rparr>"
    by (simp add: gender_filter_def)
  with b have "both = ?both"
    by (simp add: geo_enricher_def setitem_def country_to_continent_def france_pc_def)
  then show ?thesis using h1 d s by simp
qed

section \<open>The year slider\<close>















end
